theory Spec2Isabelle
  imports Main "HOL-Library.AList"
begin

section \<open>Python values used by both programs\<close>

text \<open>
  A Python \<open>str\<close> is modelled as a HOL \<open>string\<close>, one \<open>char\<close> per code point (code points
  below 256). A Python \<open>dict\<close> keeps insertion order, and assigning to a key that is
  already present keeps the key's position: this is an association list with
  \<open>AList.update\<close>, looked up with \<open>map_of\<close>.
\<close>

definition NL :: char where
  "NL = CHR 0x0A"

text \<open>\<open>sep.join(parts)\<close>.\<close>

fun join :: "string \<Rightarrow> string list \<Rightarrow> string" where
  "join sep [] = []"
| "join sep [x] = x"
| "join sep (x # y # ys) = x @ sep @ join sep (y # ys)"

text \<open>\<open>s.split(d)\<close> for a separator of one character.\<close>

fun split_char :: "char \<Rightarrow> string \<Rightarrow> string list" where
  "split_char d [] = [[]]"
| "split_char d (c # cs) =
     (if c = d then [] # split_char d cs
      else (case split_char d cs of
              [] \<Rightarrow> [[c]]
            | w # ws \<Rightarrow> (c # w) # ws))"

text \<open>\<open>s.split(sep)\<close> for a separator of the two characters \<open>a\<close>, \<open>b\<close>: the leftmost
  occurrence is taken first and occurrences do not overlap.\<close>

fun split_pair :: "char \<Rightarrow> char \<Rightarrow> string \<Rightarrow> string list" where
  "split_pair a b [] = [[]]"
| "split_pair a b [c] = [[c]]"
| "split_pair a b (c # c' # cs) =
     (if c = a \<and> c' = b then [] # split_pair a b cs
      else (case split_pair a b (c' # cs) of
              [] \<Rightarrow> [[c]]
            | w # ws \<Rightarrow> (c # w) # ws))"

text \<open>\<open>c.isspace()\<close> on the code points below 256, and \<open>s.strip()\<close>.\<close>

definition isspace :: "char \<Rightarrow> bool" where
  "isspace c \<longleftrightarrow> of_char c \<in> {9, 10, 11, 12, 13, 28, 29, 30, 31, 32, 133, 160 :: nat}"

definition strip :: "string \<Rightarrow> string" where
  "strip s = rev (dropWhile isspace (rev (dropWhile isspace s)))"

section \<open>The backend (api.py)\<close>

subsection \<open>Catalog\<close>

text \<open>
  A value of the product graph, as \<open>json.load\<close> returns it. A number, a list or an
  object is carried with the text that Python's \<open>str()\<close> gives for it. \<open>json.load\<close>
  also reads numbers that are not finite (\<open>NaN\<close>, \<open>Infinity\<close>, \<open>1e400\<close>): a value that is
  one, or a list or object that holds one, is \<open>Non_finite\<close>; every other number, list or
  object is \<open>Other\<close>.
\<close>

datatype json = Str string | Null | Bool bool | Other string | Non_finite string

text \<open>What an f-string puts in place of \<open>{v}\<close>.\<close>

fun py_str :: "json \<Rightarrow> string" where
  "py_str (Str s) = s"
| "py_str Null = ''None''"
| "py_str (Bool b) = (if b then ''True'' else ''False'')"
| "py_str (Other r) = r"
| "py_str (Non_finite r) = r"

text \<open>The values that \<open>json.dumps(..., allow_nan=False)\<close>, which renders a \<open>JSONResponse\<close>,
  accepts; on any other it raises \<open>ValueError\<close>.\<close>

fun json_compliant :: "json \<Rightarrow> bool" where
  "json_compliant (Non_finite r) = False"
| "json_compliant v = True"

type_synonym product_info = "(string \<times> json) list"
type_synonym product_graph = "(string \<times> product_info) list"

text \<open>
  Loading \<open>product_codes.csv\<close>. The argument is what the file holds: \<open>None\<close> when it
  cannot be opened, otherwise its rows. Any exception (no header for \<open>next\<close>, an empty
  row for \<open>row[0]\<close>) leaves the catalog empty.
\<close>

definition load_product_codes :: "string list list option \<Rightarrow> string list" where
  "load_product_codes file =
     (case file of
        None \<Rightarrow> []
      | Some [] \<Rightarrow> []
      | Some (header # rows) \<Rightarrow> (if [] \<in> set rows then [] else map hd rows))"

definition GENERIC_CLUSTERS :: "string list" where
  "GENERIC_CLUSTERS =
    [''Outdoor Adventure'', ''Water Sports'', ''Team Sports'', ''Fitness Equipment'',
     ''Winter Sports'', ''Cycling'', ''Running'', ''Camping'', ''Hiking'', ''Yoga'',
     ''Martial Arts'', ''Racquet Sports'', ''Golf'', ''Climbing'', ''Fishing'',
     ''Skateboarding'', ''Surfing'', ''Swimming'', ''Athletics'', ''Gym Workout'']"

subsection \<open>Sample generation\<close>

record SearchSample =
  product_codes :: "string list"
  clusters :: "string list"
  associations :: "(string \<times> string list) list"

text \<open>The exceptions that the two programs can raise, with the argument that \<open>str(e)\<close>
  shows.\<close>

datatype py_error =
    ValueError
  | KeyError string
  | OverflowError
  | ClientError string
  | Exception string

text \<open>
  The random numbers that one call of \<open>generate_sample\<close> consumes, as the generator
  gives them before they are brought into range: one for \<open>random.randint(20, 50)\<close>, a
  sequence for the \<open>random.sample\<close> on the catalog, a sequence for the one on
  \<open>GENERIC_CLUSTERS\<close>, and for the \<open>i\<close>-th round of the association loop one for
  \<open>random.randint(3, 10)\<close> and a sequence for its \<open>random.sample\<close>.
\<close>

record draws =
  num_draw :: nat
  product_draws :: "nat \<Rightarrow> nat"
  cluster_draws :: "nat \<Rightarrow> nat"
  count_draw :: "nat \<Rightarrow> nat"
  assoc_draws :: "nat \<Rightarrow> nat \<Rightarrow> nat"

text \<open>\<open>random.randint(a, b)\<close>: a number from \<open>a\<close> to \<open>b\<close>, both included.\<close>

definition randint :: "nat \<Rightarrow> nat \<Rightarrow> nat \<Rightarrow> nat" where
  "randint a b r = a + r mod (b - a + 1)"

text \<open>
  Drawing without replacement: each of the \<open>k\<close> elements is taken, by the next random
  number, among the elements not yet taken.
\<close>

primrec pick_each :: "nat \<Rightarrow> (nat \<Rightarrow> nat) \<Rightarrow> 'a list \<Rightarrow> 'a list" where
  "pick_each 0 r pool = []"
| "pick_each (Suc k) r pool =
     (let j = r k mod length pool in
      pool ! j # pick_each k r (take j pool @ drop (Suc j) pool))"

text \<open>
  \<open>random.sample(population, k)\<close> raises \<open>ValueError\<close> when \<open>k\<close> exceeds the size of the
  population, and otherwise returns \<open>k\<close> elements drawn without replacement.
\<close>

definition random_sample :: "'a list \<Rightarrow> nat \<Rightarrow> (nat \<Rightarrow> nat) \<Rightarrow> py_error + 'a list" where
  "random_sample population k r =
     (if k > length population then Inl ValueError
      else Inr (pick_each k r population))"

fun associations_loop ::
  "draws \<Rightarrow> string list \<Rightarrow> nat \<Rightarrow> string list \<Rightarrow> (string \<times> string list) list
     \<Rightarrow> py_error + (string \<times> string list) list" where
  "associations_loop d sampled_product_codes i [] assocs = Inr assocs"
| "associations_loop d sampled_product_codes i (cluster # rest) assocs =
     (let num_associated =
            min (randint 3 10 (count_draw d i)) (length sampled_product_codes) in
      case random_sample sampled_product_codes num_associated (assoc_draws d i) of
        Inl e \<Rightarrow> Inl e
      | Inr chosen \<Rightarrow>
          associations_loop d sampled_product_codes (Suc i) rest
            (AList.update cluster chosen assocs))"

definition generate_sample :: "string list \<Rightarrow> draws \<Rightarrow> py_error + SearchSample" where
  "generate_sample PRODUCT_CODES d =
     (let num_products = randint 20 50 (num_draw d) in
      case random_sample PRODUCT_CODES num_products (product_draws d) of
        Inl e \<Rightarrow> Inl e
      | Inr sampled_product_codes \<Rightarrow>
          (case random_sample GENERIC_CLUSTERS 5 (cluster_draws d) of
             Inl e \<Rightarrow> Inl e
           | Inr sampled_clusters \<Rightarrow>
               (case associations_loop d sampled_product_codes 0 sampled_clusters [] of
                  Inl e \<Rightarrow> Inl e
                | Inr assocs \<Rightarrow>
                    Inr \<lparr>product_codes = sampled_product_codes,
                         clusters = sampled_clusters,
                         associations = assocs\<rparr>)))"

text \<open>\<open>startup_event\<close>: the sample is generated from the catalog as loaded.\<close>

definition startup_event :: "string list list option \<Rightarrow> draws \<Rightarrow> py_error + SearchSample" where
  "startup_event file d = generate_sample (load_product_codes file) d"

subsection \<open>Stream producers and their materialised twins\<close>

text \<open>\<open>d.get(key, dflt)\<close>, with \<open>dflt\<close> the default.\<close>

definition dict_get :: "('k \<times> 'v) list \<Rightarrow> 'k \<Rightarrow> 'v \<Rightarrow> 'v" where
  "dict_get d k dflt = (case map_of d k of None \<Rightarrow> dflt | Some v \<Rightarrow> v)"

definition stream_cluster_names :: "string list \<Rightarrow> string list" where
  "stream_cluster_names cs = map (\<lambda>cluster. cluster @ [NL]) cs"

definition product_line :: "product_graph \<Rightarrow> string \<Rightarrow> string" where
  "product_line PRODUCT_GRAPH product_code =
     (let product_info = dict_get PRODUCT_GRAPH product_code [];
          product_name = dict_get product_info ''product_name'' (Str (''Product '' @ product_code));
          price = dict_get product_info ''price'' (Str ''N/A'');
          review_score = dict_get product_info ''review_score'' (Str ''None'');
          image_sign_kit = dict_get product_info ''image_sign_kit'' (Str '''');
          sport = dict_get product_info ''sport'' (Str ''N/A'');
          brand = dict_get product_info ''brand'' (Str ''N/A'')
      in py_str product_name @ ''|'' @ product_code @ ''|'' @ py_str price @ ''|''
           @ py_str review_score @ ''|'' @ py_str image_sign_kit @ ''|'' @ py_str sport
           @ ''|'' @ py_str brand @ [NL])"

definition stream_products :: "product_graph \<Rightarrow> string list \<Rightarrow> string list" where
  "stream_products PRODUCT_GRAPH codes = map (product_line PRODUCT_GRAPH) codes"

definition stream_associations :: "(string \<times> string list) list \<Rightarrow> string list" where
  "stream_associations assocs =
     map (\<lambda>(cluster, products). cluster @ '': '' @ join '','' products @ [NL]) assocs"

definition get_clusters_non_streaming :: "SearchSample \<Rightarrow> string list" where
  "get_clusters_non_streaming sample = clusters sample"

definition product_json :: "product_graph \<Rightarrow> string \<Rightarrow> (string \<times> json) list" where
  "product_json PRODUCT_GRAPH product_code =
     (let product_info = dict_get PRODUCT_GRAPH product_code [] in
      [(''name'', dict_get product_info ''product_name'' (Str (''Product '' @ product_code))),
       (''id'', Str product_code),
       (''price'', dict_get product_info ''price'' (Str ''N/A'')),
       (''review_score'', dict_get product_info ''review_score'' (Str ''None'')),
       (''image_sign_kit'', dict_get product_info ''image_sign_kit'' (Str '''')),
       (''sport'', dict_get product_info ''sport'' (Str ''N/A'')),
       (''brand'', dict_get product_info ''brand'' (Str ''N/A''))])"

text \<open>\<open>JSONResponse(content=...)\<close> on a list of records: the content, or the
  \<open>ValueError\<close> of its rendering when a value is not accepted.\<close>

definition JSONResponse :: "(string \<times> json) list list \<Rightarrow> py_error + (string \<times> json) list list" where
  "JSONResponse content =
     (if list_all (\<lambda>r. list_all (\<lambda>(k, v). json_compliant v) r) content then Inr content
      else Inl ValueError)"

definition get_products_non_streaming ::
  "product_graph \<Rightarrow> SearchSample \<Rightarrow> py_error + (string \<times> json) list list" where
  "get_products_non_streaming PRODUCT_GRAPH sample =
     (let products = map (product_json PRODUCT_GRAPH) (product_codes sample) in
      JSONResponse products)"

definition get_associations_non_streaming ::
  "SearchSample \<Rightarrow> (string \<times> string list) list" where
  "get_associations_non_streaming sample = associations sample"

text \<open>The three streaming routes, each on the stored sample.\<close>

definition get_clusters :: "SearchSample \<Rightarrow> string list" where
  "get_clusters sample = stream_cluster_names (clusters sample)"

definition get_products :: "product_graph \<Rightarrow> SearchSample \<Rightarrow> string list" where
  "get_products PRODUCT_GRAPH sample = stream_products PRODUCT_GRAPH (product_codes sample)"

definition get_associations :: "SearchSample \<Rightarrow> string list" where
  "get_associations sample = stream_associations (associations sample)"

section \<open>The dashboard's stream consumer (app.py)\<close>

subsection \<open>Transport\<close>

datatype url = Clusters_url | Products_url | Associations_url

text \<open>
  What \<open>response.content\<close> iterates over: the body cut after each line feed, the line
  feed kept, and a last piece without one when the body does not end with it.
\<close>

fun iter_lines :: "string \<Rightarrow> string list" where
  "iter_lines [] = []"
| "iter_lines (c # cs) =
     (if c = NL then [c] # iter_lines cs
      else (case iter_lines cs of
              [] \<Rightarrow> [[c]]
            | l # ls \<Rightarrow> (c # l) # ls))"

text \<open>
  The answer to one GET: the lines that arrive, and then either the end of the body
  (\<open>None\<close>) or an \<open>aiohttp.ClientError\<close> (a status other than 200, a broken connection or
  payload) with its text.
\<close>

type_synonym response = "string list \<times> string option"

text \<open>
  What the generator \<open>fetch_stream\<close> does, in order: it opens a request, yields a
  stripped line, sleeps, or raises. A successful attempt does not leave the \<open>for\<close> loop:
  the next attempt follows it.
\<close>

datatype item = Opened | Line string | Slept nat | Raised string

fun fetch_stream_loop :: "(nat \<Rightarrow> response) \<Rightarrow> nat \<Rightarrow> nat list \<Rightarrow> item list" where
  "fetch_stream_loop get max_retries [] = []"
| "fetch_stream_loop get max_retries (attempt # rest) =
     (case get attempt of
        (body, None) \<Rightarrow>
          Opened # map (\<lambda>line. Line (strip line)) body
            @ fetch_stream_loop get max_retries rest
      | (body, Some e) \<Rightarrow>
          Opened # map (\<lambda>line. Line (strip line)) body
            @ (if attempt = max_retries - 1 then [Raised e]
               else Slept 1 # fetch_stream_loop get max_retries rest))"

definition fetch_stream :: "(nat \<Rightarrow> response) \<Rightarrow> nat \<Rightarrow> item list" where
  "fetch_stream get max_retries = fetch_stream_loop get max_retries [0..<max_retries]"

subsection \<open>Events\<close>

type_synonym product_dict = "(string \<times> string) list"

datatype event =
    Cluster string
  | Product product_dict
  | Association string "string list"
  | Complete "string list" "product_dict list" "(string \<times> string list) list"
  | Error py_error

text \<open>What can be observed of one run of \<open>fetch_data\<close>, in order.\<close>

datatype action = Get url | Sleep nat | Emit event

subsection \<open>The three loop bodies\<close>

text \<open>Each body takes a line and what was accumulated so far, and raises or returns the
  events it yields with the new accumulation.\<close>

definition cluster_step ::
  "string \<Rightarrow> string list \<Rightarrow> py_error + event list \<times> string list" where
  "cluster_step cluster cs =
     (if cluster \<notin> set cs then Inr ([Cluster cluster], cs @ [cluster])
      else Inr ([], cs))"

definition KEYS :: "string list" where
  "KEYS = [''name'', ''id'', ''price'', ''review_score'', ''image_sign_kit'', ''sport'', ''brand'']"

definition parse_product :: "string \<Rightarrow> product_dict" where
  "parse_product product = zip KEYS (split_char CHR ''|'' product)"

text \<open>\<open>d[key]\<close>.\<close>

definition dict_item :: "(string \<times> 'v) list \<Rightarrow> string \<Rightarrow> py_error + 'v" where
  "dict_item d k = (case map_of d k of None \<Rightarrow> Inl (KeyError k) | Some v \<Rightarrow> Inr v)"

text \<open>\<open>[p['id'] for p in products]\<close>.\<close>

fun ids_of :: "product_dict list \<Rightarrow> py_error + string list" where
  "ids_of [] = Inr []"
| "ids_of (p # ps) =
     (case dict_item p ''id'' of
        Inl e \<Rightarrow> Inl e
      | Inr i \<Rightarrow> (case ids_of ps of Inl e \<Rightarrow> Inl e | Inr is \<Rightarrow> Inr (i # is)))"

definition product_step ::
  "string \<Rightarrow> product_dict list \<Rightarrow> py_error + event list \<times> product_dict list" where
  "product_step product ps =
     (let product_dict = parse_product product in
      case dict_item product_dict ''id'' of
        Inl e \<Rightarrow> Inl e
      | Inr pid \<Rightarrow>
          (case ids_of ps of
             Inl e \<Rightarrow> Inl e
           | Inr seen \<Rightarrow>
               if pid \<notin> set seen then Inr ([Product product_dict], ps @ [product_dict])
               else Inr ([], ps)))"

definition association_step ::
  "string \<Rightarrow> (string \<times> string list) list
     \<Rightarrow> py_error + event list \<times> (string \<times> string list) list" where
  "association_step association assocs =
     (case split_pair CHR '':'' CHR '' '' association of
        [cluster, product_ids] \<Rightarrow>
          Inr ([Association cluster (split_char CHR '','' product_ids)],
               AList.update cluster (split_char CHR '','' product_ids) assocs)
      | _ \<Rightarrow> Inl ValueError)"

subsection \<open>Consuming a stream\<close>

text \<open>
  \<open>async for x in task: body\<close>, on the items of the generator: the requests and the
  sleeps happen as the items are pulled, and nothing is pulled after an exception.
\<close>

fun drive ::
  "url \<Rightarrow> (string \<Rightarrow> 's \<Rightarrow> py_error + event list \<times> 's) \<Rightarrow> item list \<Rightarrow> 's
     \<Rightarrow> action list \<times> (py_error + 's)" where
  "drive u body [] st = ([], Inr st)"
| "drive u body (Opened # its) st =
     (case drive u body its st of (acts, r) \<Rightarrow> (Get u # acts, r))"
| "drive u body (Slept n # its) st =
     (case drive u body its st of (acts, r) \<Rightarrow> (Sleep n # acts, r))"
| "drive u body (Raised e # its) st = ([], Inl (ClientError e))"
| "drive u body (Line x # its) st =
     (case body x st of
        Inl e \<Rightarrow> ([], Inl e)
      | Inr (evs, st') \<Rightarrow>
          (case drive u body its st' of (acts, r) \<Rightarrow> (map Emit evs @ acts, r)))"

text \<open>The answer to \<open>POST /new_search\<close>: a status, or a \<open>ClientError\<close> with its text.\<close>

datatype post_result = Status nat | Post_failed string

definition fetch_data :: "post_result \<Rightarrow> (url \<Rightarrow> nat \<Rightarrow> response) \<Rightarrow> action list" where
  "fetch_data post server =
     (case post of
        Post_failed e \<Rightarrow> [Emit (Error (ClientError e))]
      | Status code \<Rightarrow>
          if code \<noteq> 200 then [Emit (Error (Exception ''Failed to start a new search''))]
          else
            (case drive Clusters_url cluster_step (fetch_stream (server Clusters_url) 3) [] of
               (a1, Inl e) \<Rightarrow> a1 @ [Emit (Error e)]
             | (a1, Inr cs) \<Rightarrow>
                 (case drive Products_url product_step
                         (fetch_stream (server Products_url) 3) [] of
                    (a2, Inl e) \<Rightarrow> a1 @ a2 @ [Emit (Error e)]
                  | (a2, Inr ps) \<Rightarrow>
                      (case drive Associations_url association_step
                              (fetch_stream (server Associations_url) 3) [] of
                         (a3, Inl e) \<Rightarrow> a1 @ a2 @ a3 @ [Emit (Error e)]
                       | (a3, Inr assocs) \<Rightarrow>
                           a1 @ a2 @ a3 @ [Emit (Complete cs ps assocs)]))))"

subsection \<open>Review stars\<close>

text \<open>
  The result of \<open>float(review_score)\<close>, a parameter of the model: the text is no number
  (\<open>ValueError\<close>), or it reads as not-a-number, as an infinity, or as a finite number,
  carried with the integer that \<open>round\<close> gives for it.
\<close>

datatype py_float = Not_a_float | NaN | Infinity | Finite int

text \<open>The star, U+2B50, as its three UTF-8 bytes.\<close>

definition STAR :: string where
  "STAR = [CHR 0xE2, CHR 0xAD, CHR 0x90]"

definition get_review_stars ::
  "(string \<Rightarrow> py_float) \<Rightarrow> string option \<Rightarrow> py_error + string" where
  "get_review_stars float review_score =
     (case review_score of
        None \<Rightarrow> Inr ''No reviews yet''
      | Some s \<Rightarrow>
          if s = ''None'' then Inr ''No reviews yet''
          else
            (case float s of
               Not_a_float \<Rightarrow> Inr ''Invalid review score''
             | NaN \<Rightarrow> Inr ''Invalid review score''
             | Infinity \<Rightarrow> Inl OverflowError
             | Finite n \<Rightarrow> Inr (concat (replicate (nat n) STAR))))"

section \<open>The line formats of the interface\<close>

text \<open>
  The encodings as the interface description gives them, independent of the producers:
  one category per line; the fields of a product record in their fixed order, separated
  by \<open>|\<close>; a category, a colon and a space, and the comma-joined product codes.
\<close>

definition encode_cluster :: "string \<Rightarrow> string" where
  "encode_cluster category = category @ [NL]"

definition encode_product :: "(string \<times> json) list \<Rightarrow> string" where
  "encode_product r = join ''|'' (map (\<lambda>(k, v). py_str v) r) @ [NL]"

definition encode_association :: "string \<times> string list \<Rightarrow> string" where
  "encode_association entry = fst entry @ '': '' @ join '','' (snd entry) @ [NL]"

text \<open>The events that end a run, and the actions that are events.\<close>

fun terminal :: "action \<Rightarrow> bool" where
  "terminal (Emit (Error e)) = True"
| "terminal (Emit (Complete cs ps assocs)) = True"
| "terminal a = False"

fun is_event :: "action \<Rightarrow> bool" where
  "is_event (Emit ev) = True"
| "is_event a = False"

text \<open>The streams that \<open>fetch_data\<close> consumes after a given one.\<close>

fun later :: "url \<Rightarrow> url list" where
  "later Clusters_url = [Products_url, Associations_url]"
| "later Products_url = [Associations_url]"
| "later Associations_url = []"

text \<open>The lines on which the loop body for a stream does not raise: any line for the
  clusters, a line with an \<open>id\<close> field for the products, a line that \<open>': '\<close> cuts in
  exactly two for the associations.\<close>

fun accepts :: "url \<Rightarrow> string \<Rightarrow> bool" where
  "accepts Clusters_url x = True"
| "accepts Products_url x = (map_of (parse_product x) ''id'' \<noteq> None)"
| "accepts Associations_url x = (length (split_pair CHR '':'' CHR '' '' x) = 2)"

section \<open>Example inputs\<close>

text \<open>A catalog of twenty-one rows that holds twenty codes, the first of them on two
  rows, and the draws in which every random number is 0.\<close>

definition repeated_codes :: "string list" where
  "repeated_codes =
     [''8300001'', ''8300001'', ''8300002'', ''8300003'', ''8300004'', ''8300005'',
      ''8300006'', ''8300007'', ''8300008'', ''8300009'', ''8300010'',
      ''8300011'', ''8300012'', ''8300013'', ''8300014'', ''8300015'',
      ''8300016'', ''8300017'', ''8300018'', ''8300019'', ''8300020'']"

definition first_draws :: draws where
  "first_draws =
     \<lparr>num_draw = 0,
      product_draws = (\<lambda>k. 0),
      cluster_draws = (\<lambda>k. 0),
      count_draw = (\<lambda>i. 0),
      assoc_draws = (\<lambda>i k. 0)\<rparr>"

text \<open>A product graph in which a price is not finite, one in which every value is
  finite, and a sample of two products.\<close>

definition overflow_graph :: product_graph where
  "overflow_graph =
     [(''8300001'', [(''product_name'', Str ''Trail Tent''), (''price'', Non_finite ''inf'')]),
      (''8300002'', [(''product_name'', Str ''Camp Stove''), (''price'', Other ''49.9'')])]"

definition tent_graph :: product_graph where
  "tent_graph =
     [(''8300001'', [(''product_name'', Str ''Trail Tent''), (''price'', Other ''129.99''),
                     (''review_score'', Null)])]"

definition two_products :: SearchSample where
  "two_products =
     \<lparr>product_codes = [''8300001'', ''8300002''],
      clusters = [''Camping''],
      associations = [(''Camping'', [''8300002'', ''8300001''])]\<rparr>"

text \<open>A server whose association stream carries a line without \<open>': '\<close>, a server whose
  product stream carries a line without \<open>|\<close>, a server whose product stream fails at
  every attempt, and a server whose product stream fails at the third attempt only.\<close>

definition broken_association_server :: "url \<Rightarrow> nat \<Rightarrow> response" where
  "broken_association_server u i =
     (case u of
        Clusters_url \<Rightarrow> ([''Golf'' @ [NL]], None)
      | Products_url \<Rightarrow> ([''Tent|77|10|4.5|p1|Camping|Quechua'' @ [NL]], None)
      | Associations_url \<Rightarrow> ([''Golf'' @ [NL], ''Golf: 77'' @ [NL]], None))"

definition broken_product_server :: "url \<Rightarrow> nat \<Rightarrow> response" where
  "broken_product_server u i =
     (case u of
        Clusters_url \<Rightarrow> ([''Golf'' @ [NL]], None)
      | Products_url \<Rightarrow> ([''Tent'' @ [NL], ''Boat|78'' @ [NL]], None)
      | Associations_url \<Rightarrow> ([''Golf: 78'' @ [NL]], None))"

definition failing_products_server :: "url \<Rightarrow> nat \<Rightarrow> response" where
  "failing_products_server u i =
     (case u of
        Clusters_url \<Rightarrow> ([''Golf'' @ [NL]], None)
      | Products_url \<Rightarrow>
          (if i = 0 then ([], Some ''HTTP Status 503'')
           else if i = 1 then
             ([''Tent|77|10|4.5|p1|Camping|Quechua'' @ [NL]],
              Some ''Response payload is not completed'')
           else ([], Some ''Cannot connect to host''))
      | Associations_url \<Rightarrow> ([''Golf: 77'' @ [NL]], None))"

definition late_failure_server :: "url \<Rightarrow> nat \<Rightarrow> response" where
  "late_failure_server u i =
     (case u of
        Clusters_url \<Rightarrow> ([''Golf'' @ [NL]], None)
      | Products_url \<Rightarrow>
          (if i = 2 then ([], Some ''Server disconnected'')
           else ([''Tent|77|10|4.5|p1|Camping|Quechua'' @ [NL]], None))
      | Associations_url \<Rightarrow> ([''Golf: 77'' @ [NL]], None))"

section \<open>Notions used in the statements\<close>

text \<open>The seven fields of a product as the line carries them, in the order of the line.\<close>

definition product_fields :: "product_graph \<Rightarrow> string \<Rightarrow> string list" where
  "product_fields G code = map (\<lambda>(k, v). py_str v) (product_json G code)"

definition starts_with_space :: "string \<Rightarrow> bool" where
  "starts_with_space s = (case s of [] \<Rightarrow> False | c # cs \<Rightarrow> isspace c)"

definition ends_with_space :: "string \<Rightarrow> bool" where
  "ends_with_space s = starts_with_space (rev s)"

text \<open>What \<open>fetch_stream\<close> yields for a body made of the given chunks.\<close>

definition received :: "string list \<Rightarrow> string list" where
  "received chunks = map strip (iter_lines (concat chunks))"

text \<open>
  The values that survive their line: a cluster label without line feed and without
  whitespace at either end; a product whose fields hold neither \<open>|\<close> nor a line feed,
  with no whitespace before the name or after the brand; an association whose label
  holds no colon, no line feed and no leading whitespace, and whose codes, at least
  one, hold no comma, colon or line feed, the last one not empty and without trailing
  whitespace.
\<close>

definition clean_cluster :: "string \<Rightarrow> bool" where
  "clean_cluster c \<longleftrightarrow> NL \<notin> set c \<and> \<not> starts_with_space c \<and> \<not> ends_with_space c"

definition clean_product :: "product_graph \<Rightarrow> string \<Rightarrow> bool" where
  "clean_product G code \<longleftrightarrow>
     list_all (\<lambda>f. CHR ''|'' \<notin> set f \<and> NL \<notin> set f) (product_fields G code)
     \<and> \<not> starts_with_space (product_fields G code ! 0)
     \<and> \<not> ends_with_space (product_fields G code ! 6)"

definition clean_association :: "string \<times> string list \<Rightarrow> bool" where
  "clean_association entry \<longleftrightarrow>
     CHR '':'' \<notin> set (fst entry) \<and> NL \<notin> set (fst entry) \<and> \<not> starts_with_space (fst entry)
     \<and> snd entry \<noteq> [] \<and> last (snd entry) \<noteq> [] \<and> \<not> ends_with_space (last (snd entry))
     \<and> list_all (\<lambda>p. CHR '','' \<notin> set p \<and> CHR '':'' \<notin> set p \<and> NL \<notin> set p) (snd entry)"

section \<open>Sampling from a catalog that is too small\<close>

lemma random_sample_too_many:
  "length population < k \<Longrightarrow> random_sample population k r = Inl ValueError"
  by (simp add: random_sample_def)

lemma randint_range: "a \<le> b \<Longrightarrow> a \<le> randint a b r \<and> randint a b r \<le> b"
proof -
  assume ab: "a \<le> b"
  have "r mod (b - a + 1) < b - a + 1" by simp
  then have "r mod (b - a + 1) \<le> b - a" by linarith
  with ab show ?thesis unfolding randint_def by linarith
qed

text \<open>
  C2: when the catalog holds fewer product codes than the number drawn by
  \<open>random.randint(20, 50)\<close>, \<open>generate_sample\<close> raises \<open>ValueError\<close>: no sample is
  returned, neither a shorter one nor one with repeated codes.
\<close>

theorem generate_sample_small_catalog:
  "length PRODUCT_CODES < randint 20 50 (num_draw d) \<Longrightarrow>
   generate_sample PRODUCT_CODES d = Inl ValueError"
  by (simp add: generate_sample_def random_sample_too_many)

theorem generate_sample_small_catalog_witness:
  "length [''8300001'', ''8300002''] < randint 20 50 (num_draw first_draws)
   \<and> generate_sample [''8300001'', ''8300002''] first_draws = Inl ValueError"
  using generate_sample_small_catalog[of "[''8300001'', ''8300002'']" first_draws]
  by (simp add: randint_def first_draws_def)

text \<open>
  C9: the claim is that a catalog that failed to load leaves an empty catalog on which
  sample generation yields a sample of zero items. The code does fall back to the empty
  catalog, but \<open>startup_event\<close> then calls \<open>generate_sample\<close>, which raises \<open>ValueError\<close>
  whatever the random numbers are, since \<open>random.randint(20, 50)\<close> is at least 20.
\<close>

theorem startup_empty_catalog:
  "startup_event None d = Inl ValueError"
proof -
  have "20 \<le> randint 20 50 (num_draw d)" using randint_range[of 20 50] by simp
  then have "length ([] :: string list) < randint 20 50 (num_draw d)" by simp
  then show ?thesis
    by (simp add: startup_event_def load_product_codes_def generate_sample_def
        random_sample_too_many)
qed

section \<open>Sentinels for a product that the graph does not know\<close>

lemma product_line_absent:
  "map_of G code = None \<Longrightarrow>
     product_line G code = ''Product '' @ code @ ''|'' @ code @ ''|N/A|None||N/A|N/A'' @ [NL]"
  by (simp add: product_line_def dict_get_def)

lemma product_json_absent:
  "map_of G code = None \<Longrightarrow>
     product_json G code =
       [(''name'', Str (''Product '' @ code)), (''id'', Str code), (''price'', Str ''N/A''),
        (''review_score'', Str ''None''), (''image_sign_kit'', Str ''''),
        (''sport'', Str ''N/A''), (''brand'', Str ''N/A'')]"
  by (simp add: product_json_def dict_get_def)

lemma JSONResponse_Inr: "JSONResponse content = Inr rs \<Longrightarrow> rs = content"
  by (simp add: JSONResponse_def split: if_splits)

lemma non_streaming_Inr:
  "get_products_non_streaming G sample = Inr rs \<Longrightarrow>
   rs = map (product_json G) (product_codes sample)"
  by (simp add: get_products_non_streaming_def JSONResponse_Inr)

text \<open>
  C3: for a product code of the sample that is not a key of the product graph, the line of
  the product stream and the record that the non-streaming endpoint builds, and returns
  whenever it answers, carry the name \<open>Product <code>\<close>, the price \<open>N/A\<close>, the review
  score \<open>None\<close>, an empty image reference, and \<open>N/A\<close> for sport and brand.
\<close>

theorem absent_code_sentinels:
  assumes "i < length (product_codes sample)"
    and "map_of G (product_codes sample ! i) = None"
  shows "get_products G sample ! i =
           ''Product '' @ product_codes sample ! i @ ''|'' @ product_codes sample ! i
             @ ''|N/A|None||N/A|N/A'' @ [NL]
         \<and> product_json G (product_codes sample ! i) =
           [(''name'', Str (''Product '' @ product_codes sample ! i)),
            (''id'', Str (product_codes sample ! i)),
            (''price'', Str ''N/A''),
            (''review_score'', Str ''None''),
            (''image_sign_kit'', Str ''''),
            (''sport'', Str ''N/A''),
            (''brand'', Str ''N/A'')]
         \<and> (get_products_non_streaming G sample = Inr rs \<longrightarrow>
              rs ! i = product_json G (product_codes sample ! i))"
  using assms
  by (auto simp: get_products_def stream_products_def product_line_absent product_json_absent
      dest!: non_streaming_Inr)

theorem absent_code_sentinels_witness:
  "get_products [(''8501234'', [(''price'', Other ''12.5'')])]
      \<lparr>product_codes = [''8501234'', ''77''], clusters = [], associations = []\<rparr> ! 1 =
     ''Product 77|77|N/A|None||N/A|N/A'' @ [NL]
   \<and> get_products_non_streaming [(''8501234'', [(''price'', Other ''12.5'')])]
      \<lparr>product_codes = [''8501234'', ''77''], clusters = [], associations = []\<rparr> =
     Inr [[(''name'', Str ''Product 8501234''), (''id'', Str ''8501234''),
           (''price'', Other ''12.5''), (''review_score'', Str ''None''),
           (''image_sign_kit'', Str ''''), (''sport'', Str ''N/A''), (''brand'', Str ''N/A'')],
          [(''name'', Str ''Product 77''), (''id'', Str ''77''), (''price'', Str ''N/A''),
           (''review_score'', Str ''None''), (''image_sign_kit'', Str ''''),
           (''sport'', Str ''N/A''), (''brand'', Str ''N/A'')]]"
  using absent_code_sentinels
    [of 1 "\<lparr>product_codes = [''8501234'', ''77''], clusters = [], associations = []\<rparr>"
        "[(''8501234'', [(''price'', Other ''12.5'')])]"
        "[[(''name'', Str ''Product 8501234''), (''id'', Str ''8501234''),
           (''price'', Other ''12.5''), (''review_score'', Str ''None''),
           (''image_sign_kit'', Str ''''), (''sport'', Str ''N/A''), (''brand'', Str ''N/A'')],
          [(''name'', Str ''Product 77''), (''id'', Str ''77''), (''price'', Str ''N/A''),
           (''review_score'', Str ''None''), (''image_sign_kit'', Str ''''),
           (''sport'', Str ''N/A''), (''brand'', Str ''N/A'')]]"]
  by (simp add: get_products_non_streaming_def JSONResponse_def product_json_def dict_get_def)

lemma encode_product_json: "encode_product (product_json G code) = product_line G code"
  by (simp add: encode_product_def product_json_def product_line_def Let_def)

lemma keys_product_json: "map fst (product_json G code) = KEYS"
  by (simp add: product_json_def KEYS_def Let_def)

section \<open>The invariants of a generated sample\<close>

lemma pick_each_length_set:
  "k \<le> length pool \<Longrightarrow> length (pick_each k r pool) = k \<and> set (pick_each k r pool) \<subseteq> set pool"
proof (induction k arbitrary: pool)
  case 0
  then show ?case by simp
next
  case (Suc k)
  let ?j = "r k mod length pool"
  let ?rest = "take ?j pool @ drop (Suc ?j) pool"
  from Suc.prems have ne: "0 < length pool" by (cases pool) simp_all
  then have j: "?j < length pool" by simp
  have "length ?rest = length pool - 1" using j by simp
  with Suc.prems have "k \<le> length ?rest" by simp
  from Suc.IH[OF this] have ih: "length (pick_each k r ?rest) = k"
    "set (pick_each k r ?rest) \<subseteq> set ?rest" by simp_all
  have sub: "set ?rest \<subseteq> set pool"
    using set_take_subset[of ?j pool] set_drop_subset[of "Suc ?j" pool] by auto
  have "pool ! ?j \<in> set pool" using j by simp
  with ih sub show ?case by (auto simp: Let_def)
qed

lemma pick_each_distinct:
  "k \<le> length pool \<Longrightarrow> distinct pool \<Longrightarrow> distinct (pick_each k r pool)"
proof (induction k arbitrary: pool)
  case 0
  then show ?case by simp
next
  case (Suc k)
  let ?j = "r k mod length pool"
  let ?rest = "take ?j pool @ drop (Suc ?j) pool"
  from Suc.prems have ne: "0 < length pool" by (cases pool) simp_all
  then have j: "?j < length pool" by simp
  have "pool = take ?j pool @ pool ! ?j # drop (Suc ?j) pool"
    using j by (rule id_take_nth_drop)
  with Suc.prems(2) have d: "distinct (take ?j pool @ pool ! ?j # drop (Suc ?j) pool)"
    by simp
  then have dr: "distinct ?rest" and notin: "pool ! ?j \<notin> set ?rest" by auto
  have "length ?rest = length pool - 1" using j by simp
  with Suc.prems have le: "k \<le> length ?rest" by simp
  have "distinct (pick_each k r ?rest)" using le dr by (rule Suc.IH)
  moreover have "set (pick_each k r ?rest) \<subseteq> set ?rest"
    using pick_each_length_set[OF le] by simp
  ultimately show ?case using notin by (auto simp: Let_def)
qed

lemma pick_each_first: "k \<le> length pool \<Longrightarrow> pick_each k (\<lambda>i. 0) pool = take k pool"
proof (induction k arbitrary: pool)
  case 0
  then show ?case by simp
next
  case (Suc k)
  then obtain x xs where p: "pool = x # xs" by (cases pool) auto
  with Suc show ?case by simp
qed

lemma update_fresh: "k \<notin> fst ` set al \<Longrightarrow> AList.update k v al = al @ [(k, v)]"
  by (induction al) auto

lemma associations_loop_ok:
  assumes "distinct (map fst assocs @ cs)" and "10 \<le> length codes"
  shows "\<exists>r. associations_loop d codes i cs assocs = Inr (assocs @ r) \<and> map fst r = cs \<and>
           (\<forall>e \<in> set r. set (snd e) \<subseteq> set codes \<and> 3 \<le> length (snd e) \<and> length (snd e) \<le> 10)"
  using assms
proof (induction cs arbitrary: i assocs)
  case Nil
  then show ?case by simp
next
  case (Cons c cs)
  let ?k = "min (randint 3 10 (count_draw d i)) (length codes)"
  let ?chosen = "pick_each ?k (assoc_draws d i) codes"
  have rg: "3 \<le> randint 3 10 (count_draw d i)" "randint 3 10 (count_draw d i) \<le> 10"
    using randint_range[of 3 10 "count_draw d i"] by simp_all
  then have k: "3 \<le> ?k" "?k \<le> 10" "?k \<le> length codes" using Cons.prems(2) by simp_all
  have rs: "random_sample codes ?k (assoc_draws d i) = Inr ?chosen"
    using k(3) by (simp add: random_sample_def)
  have fresh: "c \<notin> fst ` set assocs" using Cons.prems(1) by auto
  have upd: "AList.update c ?chosen assocs = assocs @ [(c, ?chosen)]"
    using fresh by (rule update_fresh)
  have p2: "distinct (map fst (assocs @ [(c, ?chosen)]) @ cs)"
    using Cons.prems(1) by auto
  from Cons.IH[OF p2 Cons.prems(2)] obtain r where
    r: "associations_loop d codes (Suc i) cs (assocs @ [(c, ?chosen)]) =
          Inr ((assocs @ [(c, ?chosen)]) @ r)"
       "map fst r = cs"
       "\<forall>e \<in> set r. set (snd e) \<subseteq> set codes \<and> 3 \<le> length (snd e) \<and> length (snd e) \<le> 10"
    by blast
  have ls: "length ?chosen = ?k" "set ?chosen \<subseteq> set codes"
    using pick_each_length_set[OF k(3)] by simp_all
  have "associations_loop d codes i (c # cs) assocs = Inr (assocs @ ((c, ?chosen) # r))"
    using rs upd r(1) by (simp add: Let_def)
  moreover have "map fst ((c, ?chosen) # r) = c # cs" using r(2) by simp
  moreover have "\<forall>e \<in> set ((c, ?chosen) # r).
      set (snd e) \<subseteq> set codes \<and> 3 \<le> length (snd e) \<and> length (snd e) \<le> 10"
    using r(3) ls k by simp
  ultimately show ?case
    by (intro exI[of _ "(c, ?chosen) # r"] conjI)
qed

lemma distinct_GENERIC_CLUSTERS: "distinct GENERIC_CLUSTERS"
  by (simp add: GENERIC_CLUSTERS_def)

text \<open>
  On a catalog without repeated rows that is large enough, every sample has between 20
  and 50 product codes, all different; five different clusters; exactly one association
  entry per cluster, in the order of the clusters; and in every entry between 3 and
  \<open>min(10, len(product_codes))\<close> codes, each of them a product code of the sample.
\<close>

lemma generate_sample_invariants:
  assumes "distinct PRODUCT_CODES"
    and "randint 20 50 (num_draw d) \<le> length PRODUCT_CODES"
  shows "\<exists>s. generate_sample PRODUCT_CODES d = Inr s
           \<and> 20 \<le> length (product_codes s) \<and> length (product_codes s) \<le> 50
           \<and> distinct (product_codes s)
           \<and> length (clusters s) = 5 \<and> distinct (clusters s)
           \<and> map fst (associations s) = clusters s
           \<and> (\<forall>e \<in> set (associations s).
                 set (snd e) \<subseteq> set (product_codes s)
                 \<and> 3 \<le> length (snd e)
                 \<and> length (snd e) \<le> min 10 (length (product_codes s)))"
proof -
  let ?n = "randint 20 50 (num_draw d)"
  let ?codes = "pick_each ?n (product_draws d) PRODUCT_CODES"
  let ?cs = "pick_each 5 (cluster_draws d) GENERIC_CLUSTERS"
  have n: "20 \<le> ?n" "?n \<le> 50" using randint_range[of 20 50 "num_draw d"] by simp_all
  have s1: "random_sample PRODUCT_CODES ?n (product_draws d) = Inr ?codes"
    using assms(2) by (simp add: random_sample_def)
  have five: "5 \<le> length GENERIC_CLUSTERS" by (simp add: GENERIC_CLUSTERS_def)
  have s2: "random_sample GENERIC_CLUSTERS 5 (cluster_draws d) = Inr ?cs"
    using five by (simp add: random_sample_def)
  have lcodes: "length ?codes = ?n" using pick_each_length_set[OF assms(2)] by simp
  have dcodes: "distinct ?codes" using assms(2,1) by (rule pick_each_distinct)
  have lcs: "length ?cs = 5" using pick_each_length_set[OF five] by simp
  have dcs: "distinct ?cs" using five distinct_GENERIC_CLUSTERS by (rule pick_each_distinct)
  have a2: "distinct (map fst ([] :: (string \<times> string list) list) @ ?cs)" using dcs by simp
  have a3: "10 \<le> length ?codes" using lcodes n by simp
  from associations_loop_ok[OF a2 a3, of d 0] obtain r where
    r: "associations_loop d ?codes 0 ?cs [] = Inr r" "map fst r = ?cs"
       "\<forall>e \<in> set r. set (snd e) \<subseteq> set ?codes \<and> 3 \<le> length (snd e) \<and> length (snd e) \<le> 10"
    by auto
  let ?s = "\<lparr>product_codes = ?codes, clusters = ?cs, associations = r\<rparr>"
  have g: "generate_sample PRODUCT_CODES d = Inr ?s"
    using s1 s2 r(1) by (simp add: generate_sample_def)
  have m: "min 10 (length ?codes) = 10" using a3 by simp
  have "20 \<le> length (product_codes ?s) \<and> length (product_codes ?s) \<le> 50
           \<and> distinct (product_codes ?s)
           \<and> length (clusters ?s) = 5 \<and> distinct (clusters ?s)
           \<and> map fst (associations ?s) = clusters ?s
           \<and> (\<forall>e \<in> set (associations ?s).
                 set (snd e) \<subseteq> set (product_codes ?s)
                 \<and> 3 \<le> length (snd e)
                 \<and> length (snd e) \<le> min 10 (length (product_codes ?s)))"
    using lcodes n dcodes lcs dcs r(2,3) m by simp
  with g show ?thesis
    by (intro exI[of _ ?s] conjI) simp_all
qed

lemma generate_sample_repeated:
  "generate_sample repeated_codes first_draws =
     Inr \<lparr>product_codes =
            [''8300001'', ''8300001'', ''8300002'', ''8300003'', ''8300004'', ''8300005'',
             ''8300006'', ''8300007'', ''8300008'', ''8300009'', ''8300010'',
             ''8300011'', ''8300012'', ''8300013'', ''8300014'', ''8300015'',
             ''8300016'', ''8300017'', ''8300018'', ''8300019''],
          clusters = [''Outdoor Adventure'', ''Water Sports'', ''Team Sports'',
                      ''Fitness Equipment'', ''Winter Sports''],
          associations =
            [(''Outdoor Adventure'', [''8300001'', ''8300001'', ''8300002'']),
             (''Water Sports'', [''8300001'', ''8300001'', ''8300002'']),
             (''Team Sports'', [''8300001'', ''8300001'', ''8300002'']),
             (''Fitness Equipment'', [''8300001'', ''8300001'', ''8300002'']),
             (''Winter Sports'', [''8300001'', ''8300001'', ''8300002''])]\<rparr>"
  by (simp add: generate_sample_def random_sample_def first_draws_def randint_def
      pick_each_first repeated_codes_def GENERIC_CLUSTERS_def)

text \<open>
  C1: the claim asks for product codes that are all different whenever the catalog holds
  enough codes. The catalog \<open>repeated_codes\<close> holds twenty different codes, one of them
  on two rows; twenty codes are drawn, and the sample that \<open>generate_sample\<close> returns
  holds the repeated code twice, since \<open>random.sample\<close> draws rows, not codes.
\<close>

theorem repeated_row_sampled_twice:
  "card (set repeated_codes) = 20
   \<and> randint 20 50 (num_draw first_draws) = 20
   \<and> (case generate_sample repeated_codes first_draws of
         Inl e \<Rightarrow> False
       | Inr s \<Rightarrow> length (product_codes s) = 20 \<and> \<not> distinct (product_codes s))"
proof -
  have a: "card (set repeated_codes) = 20" by (simp add: repeated_codes_def)
  have b: "randint 20 50 (num_draw first_draws) = 20"
    by (simp add: randint_def first_draws_def)
  show ?thesis using a b by (simp add: generate_sample_repeated)
qed

section \<open>A product line through the consumer\<close>

lemma split_char_no_sep: "d \<notin> set f \<Longrightarrow> split_char d f = [f]"
  by (induction f) auto

lemma split_char_append:
  "d \<notin> set f \<Longrightarrow> split_char d (f @ d # rest) = f # split_char d rest"
  by (induction f) auto

lemma split_char_join:
  "fs \<noteq> [] \<Longrightarrow> \<forall>f \<in> set fs. d \<notin> set f \<Longrightarrow> split_char d (join [d] fs) = fs"
proof (induction "[d]" fs rule: join.induct)
  case 1
  then show ?case by simp
next
  case (2 x)
  then show ?case by (simp add: split_char_no_sep)
next
  case (3 x y ys)
  then show ?case by (simp add: split_char_append)
qed

lemma iter_lines_one: "NL \<notin> set s \<Longrightarrow> iter_lines (s @ [NL]) = [s @ [NL]]"
  by (induction s) auto

lemma NL_not_in_join:
  "\<forall>f \<in> set fs. c \<notin> set f \<Longrightarrow> c \<notin> set sep \<Longrightarrow> c \<notin> set (join sep fs)"
  by (induction sep fs rule: join.induct) auto

lemma isspace_NL: "isspace NL"
  by (simp add: isspace_def NL_def)

lemma not_isspace_bar: "\<not> isspace CHR ''|''"
  by (simp add: isspace_def)

lemma dropWhile_keep:
  "\<not> starts_with_space s \<Longrightarrow> s \<noteq> [] \<Longrightarrow> dropWhile isspace (s @ t) = s @ t"
  by (cases s) (auto simp: starts_with_space_def)

lemma strip_line:
  assumes "\<not> starts_with_space s" and "\<not> ends_with_space s" and "s \<noteq> []"
  shows "strip (s @ [NL]) = s"
proof -
  have a: "dropWhile isspace (s @ [NL]) = s @ [NL]"
    using assms(1,3) by (rule dropWhile_keep)
  have b: "dropWhile isspace (rev s @ []) = rev s @ []"
    using assms(2,3) by (intro dropWhile_keep) (auto simp: ends_with_space_def)
  show ?thesis using a b by (simp add: strip_def isspace_NL)
qed

lemma product_fields_shape:
  "\<exists>n p r i s b. product_fields G code = [n, code, p, r, i, s, b]"
  by (simp add: product_fields_def product_json_def Let_def)

lemma product_line_fields:
  "product_line G code = join ''|'' (product_fields G code) @ [NL]"
  using encode_product_json[of G code] by (simp add: encode_product_def product_fields_def)

lemma seven_start:
  "\<not> starts_with_space n \<Longrightarrow> \<not> starts_with_space (join ''|'' [n, c, p, r, i, s, b])"
  by (cases n) (auto simp: starts_with_space_def not_isspace_bar)

lemma seven_end:
  "\<not> ends_with_space b \<Longrightarrow> \<not> ends_with_space (join ''|'' [n, c, p, r, i, s, b])"
  by (cases "rev b") (auto simp: ends_with_space_def starts_with_space_def not_isspace_bar)

text \<open>
  C4 (as amended): for a product none of whose seven fields contains the separator \<open>|\<close>
  or a line feed, whose name does not start with whitespace and whose brand does not end
  with whitespace, the line of the product stream, received through the line iteration
  and \<open>strip\<close> of \<open>fetch_stream\<close> and parsed by the consumer, gives back the seven fields
  under their keys, sentinels included.
\<close>

theorem product_line_round_trip:
  assumes "\<forall>f \<in> set (product_fields G code). CHR ''|'' \<notin> set f \<and> NL \<notin> set f"
    and "\<not> starts_with_space (product_fields G code ! 0)"
    and "\<not> ends_with_space (product_fields G code ! 6)"
  shows "map (\<lambda>line. parse_product (strip line)) (iter_lines (product_line G code)) =
           [zip KEYS (product_fields G code)]"
proof -
  obtain n p r i s b where fs: "product_fields G code = [n, code, p, r, i, s, b]"
    using product_fields_shape by blast
  let ?content = "join ''|'' (product_fields G code)"
  have nl: "NL \<notin> set ?content"
    using assms(1) by (intro NL_not_in_join) (auto simp: NL_def)
  have lines: "iter_lines (product_line G code) = [?content @ [NL]]"
    using nl by (simp add: product_line_fields iter_lines_one)
  have ne: "?content \<noteq> []" by (simp add: fs)
  have "\<not> starts_with_space n" using assms(2) by (simp add: fs)
  then have st: "\<not> starts_with_space ?content"
    unfolding fs by (rule seven_start)
  have "\<not> ends_with_space b" using assms(3) by (simp add: fs)
  then have en: "\<not> ends_with_space ?content"
    unfolding fs by (rule seven_end)
  have strip: "strip (?content @ [NL]) = ?content"
    using st en ne by (rule strip_line)
  have "split_char CHR ''|'' (join [CHR ''|''] (product_fields G code)) = product_fields G code"
    using assms(1) by (intro split_char_join) (auto simp: fs)
  then have "parse_product ?content = zip KEYS (product_fields G code)"
    by (simp add: parse_product_def)
  with lines strip show ?thesis by simp
qed

theorem product_line_round_trip_witness:
  "map (\<lambda>line. parse_product (strip line))
     (iter_lines (product_line
        [(''8300001'', [(''product_name'', Str ''Trail Tent''), (''price'', Other ''129.99''),
                        (''review_score'', Null)])] ''8300001'')) =
   [[(''name'', ''Trail Tent''), (''id'', ''8300001''), (''price'', ''129.99''),
     (''review_score'', ''None''), (''image_sign_kit'', ''''), (''sport'', ''N/A''),
     (''brand'', ''N/A'')]]"
  using product_line_round_trip
    [of "[(''8300001'', [(''product_name'', Str ''Trail Tent''), (''price'', Other ''129.99''),
                        (''review_score'', Null)])]" "''8300001''"]
  by (simp add: product_fields_def product_json_def dict_get_def KEYS_def NL_def
      starts_with_space_def ends_with_space_def isspace_def)

text \<open>
  C4 as stated covers every product of the sample. A name that contains the separator is
  cut in two by the consumer, and every later field moves one key to the right.
\<close>

theorem product_line_bar_counterexample:
  "map (\<lambda>line. parse_product (strip line))
     (iter_lines (product_line [(''8300001'', [(''product_name'', Str ''Tent 2|3 places'')])]
        ''8300001''))
   \<noteq> [zip KEYS (product_fields [(''8300001'', [(''product_name'', Str ''Tent 2|3 places'')])]
        ''8300001'')]"
  by (simp add: product_fields_def product_json_def product_line_def dict_get_def KEYS_def
      NL_def parse_product_def strip_def isspace_def)

section \<open>Streamed and materialised endpoints\<close>

lemma iter_lines_line:
  "NL \<notin> set s \<Longrightarrow> iter_lines (s @ NL # rest) = (s @ [NL]) # iter_lines rest"
  by (induction s) auto

lemma iter_lines_concat:
  "\<forall>l \<in> set ls. NL \<notin> set l \<Longrightarrow>
   iter_lines (concat (map (\<lambda>l. l @ [NL]) ls)) = map (\<lambda>l. l @ [NL]) ls"
  by (induction ls) (auto simp: iter_lines_line)

lemma strip_content:
  assumes "\<not> starts_with_space s" and "\<not> ends_with_space s"
  shows "strip (s @ [NL]) = s"
proof (cases "s = []")
  case True
  then show ?thesis by (simp add: strip_def isspace_NL)
next
  case False
  with assms show ?thesis by (simp add: strip_line)
qed

lemma received_lines:
  assumes "\<forall>l \<in> set ls. NL \<notin> set l \<and> \<not> starts_with_space l \<and> \<not> ends_with_space l"
  shows "received (map (\<lambda>l. l @ [NL]) ls) = ls"
proof -
  have "iter_lines (concat (map (\<lambda>l. l @ [NL]) ls)) = map (\<lambda>l. l @ [NL]) ls"
    using assms by (intro iter_lines_concat) simp
  moreover have "map strip (map (\<lambda>l. l @ [NL]) ls) = ls"
    using assms by (induction ls) (simp_all add: strip_content)
  ultimately show ?thesis by (simp add: received_def)
qed

lemma rendered_json:
  "map (\<lambda>(k, v). (k, py_str v)) (product_json G code) = zip KEYS (product_fields G code)"
  by (simp add: product_fields_def product_json_def KEYS_def Let_def)

lemma clean_product_content:
  assumes "clean_product G code"
  shows "NL \<notin> set (join ''|'' (product_fields G code))"
    and "\<not> starts_with_space (join ''|'' (product_fields G code))"
    and "\<not> ends_with_space (join ''|'' (product_fields G code))"
    and "parse_product (join ''|'' (product_fields G code)) = zip KEYS (product_fields G code)"
proof -
  from assms have all: "\<forall>f \<in> set (product_fields G code). CHR ''|'' \<notin> set f \<and> NL \<notin> set f"
    and st: "\<not> starts_with_space (product_fields G code ! 0)"
    and en: "\<not> ends_with_space (product_fields G code ! 6)"
    by (simp_all add: clean_product_def list_all_iff)
  obtain n p r i s b where fs: "product_fields G code = [n, code, p, r, i, s, b]"
    using product_fields_shape by blast
  show "NL \<notin> set (join ''|'' (product_fields G code))"
    using all by (intro NL_not_in_join) (auto simp: NL_def)
  have "\<not> starts_with_space n" using st by (simp add: fs)
  then show "\<not> starts_with_space (join ''|'' (product_fields G code))"
    unfolding fs by (rule seven_start)
  have "\<not> ends_with_space b" using en by (simp add: fs)
  then show "\<not> ends_with_space (join ''|'' (product_fields G code))"
    unfolding fs by (rule seven_end)
  have "split_char CHR ''|'' (join [CHR ''|''] (product_fields G code)) = product_fields G code"
    using all by (intro split_char_join) (auto simp: fs)
  then show "parse_product (join ''|'' (product_fields G code)) = zip KEYS (product_fields G code)"
    by (simp add: parse_product_def)
qed

lemma split_pair_no_sep: "a \<notin> set s \<Longrightarrow> split_pair a b s = [s]"
  by (induction a b s rule: split_pair.induct) auto

lemma split_pair_append:
  "a \<notin> set c \<Longrightarrow> split_pair a b (c @ a # b # rest) = c # split_pair a b rest"
proof (induction c)
  case Nil
  then show ?case by simp
next
  case (Cons x xs)
  then have ih: "split_pair a b (xs @ a # b # rest) = xs # split_pair a b rest" by simp
  from Cons.prems have xa: "x \<noteq> a" by auto
  obtain y ys where e: "xs @ a # b # rest = y # ys" by (cases "xs @ a # b # rest") auto
  have "split_pair a b (x # y # ys) = (x # xs) # split_pair a b rest"
    using xa ih e by simp
  with e show ?case by simp
qed

lemma ends_with_space_last: "s \<noteq> [] \<Longrightarrow> ends_with_space s = isspace (last s)"
  by (cases s rule: rev_cases) (simp_all add: ends_with_space_def starts_with_space_def)

lemma starts_with_space_append:
  "\<not> starts_with_space c \<Longrightarrow> \<not> starts_with_space (c @ CHR '':'' # t)"
  by (cases c) (simp_all add: starts_with_space_def isspace_def)

lemma join_last:
  "ps \<noteq> [] \<Longrightarrow> last ps \<noteq> [] \<Longrightarrow> join sep ps \<noteq> [] \<and> last (join sep ps) = last (last ps)"
  by (induction sep ps rule: join.induct) auto

lemma char_not_in_join:
  "\<forall>f \<in> set fs. c \<notin> set f \<Longrightarrow> c \<notin> set sep \<Longrightarrow> c \<notin> set (join sep fs)"
  by (induction sep fs rule: join.induct) auto

lemma clean_association_content:
  assumes "clean_association (c, ps)"
  shows "NL \<notin> set (c @ '': '' @ join '','' ps)"
    and "\<not> starts_with_space (c @ '': '' @ join '','' ps)"
    and "\<not> ends_with_space (c @ '': '' @ join '','' ps)"
    and "association_step (c @ '': '' @ join '','' ps) [] =
           Inr ([Association c ps], [(c, ps)])"
proof -
  from assms have c: "CHR '':'' \<notin> set c" "NL \<notin> set c" "\<not> starts_with_space c"
    and ps: "ps \<noteq> []" "last ps \<noteq> []" "\<not> ends_with_space (last ps)"
    and all: "\<forall>p \<in> set ps. CHR '','' \<notin> set p \<and> CHR '':'' \<notin> set p \<and> NL \<notin> set p"
    by (simp_all add: clean_association_def list_all_iff)
  have jn: "NL \<notin> set (join '','' ps)" using all by (intro char_not_in_join) (auto simp: NL_def)
  have jc: "CHR '':'' \<notin> set (join '','' ps)" using all by (intro char_not_in_join) auto
  show "NL \<notin> set (c @ '': '' @ join '','' ps)" using c(2) jn by (simp add: NL_def)
  show "\<not> starts_with_space (c @ '': '' @ join '','' ps)"
    using starts_with_space_append[OF c(3)] by simp
  have jl: "join '','' ps \<noteq> []" "last (join '','' ps) = last (last ps)"
    using join_last[OF ps(1,2)] by simp_all
  have "\<not> isspace (last (last ps))" using ps(2,3) by (simp add: ends_with_space_last)
  then show "\<not> ends_with_space (c @ '': '' @ join '','' ps)"
    using jl by (simp add: ends_with_space_last)
  have "split_pair CHR '':'' CHR '' '' (c @ CHR '':'' # CHR '' '' # join '','' ps) =
          c # split_pair CHR '':'' CHR '' '' (join '','' ps)"
    using c(1) by (rule split_pair_append)
  then have sp: "split_pair CHR '':'' CHR '' '' (c @ '': '' @ join '','' ps) = [c, join '','' ps]"
    using jc by (simp add: split_pair_no_sep)
  have "split_char CHR '','' (join [CHR '',''] ps) = ps"
    using ps(1) all by (intro split_char_join) auto
  then show "association_step (c @ '': '' @ join '','' ps) [] =
           Inr ([Association c ps], [(c, ps)])"
    using sp by (simp add: association_step_def)
qed

lemma streamed_clusters: "get_clusters sample = map (\<lambda>c. c @ [NL]) (clusters sample)"
  by (simp add: get_clusters_def stream_cluster_names_def)

lemma streamed_products:
  "get_products G sample =
     map (\<lambda>l. l @ [NL]) (map (\<lambda>code. join ''|'' (product_fields G code)) (product_codes sample))"
  by (simp add: get_products_def stream_products_def product_line_fields)

lemma streamed_associations:
  "get_associations sample =
     map (\<lambda>l. l @ [NL])
       (map (\<lambda>entry. fst entry @ '': '' @ join '','' (snd entry)) (associations sample))"
  by (simp add: get_associations_def stream_associations_def case_prod_beta)

lemma non_streaming_answers:
  "list_all (\<lambda>code. list_all (\<lambda>(k, v). json_compliant v) (product_json G code))
     (product_codes sample) \<Longrightarrow>
   get_products_non_streaming G sample = Inr (map (product_json G) (product_codes sample))"
  by (simp add: get_products_non_streaming_def JSONResponse_def list_all_iff)

text \<open>
  C5 (as amended): on the same stored sample, the streaming endpoint of a facet yields,
  record by record and in the same order, the line encoding of what the non-streaming
  endpoint returns; for the products the non-streaming endpoint returns its records
  whenever no attribute of a sampled product is a non-finite number. When the values are
  free of the separators of their line, the lines as the consumer receives and parses
  them give back the values of the non-streaming records, the product fields as text.
\<close>

theorem streamed_vs_materialised:
  "get_clusters sample = map encode_cluster (get_clusters_non_streaming sample)
   \<and> get_associations sample = map encode_association (get_associations_non_streaming sample)
   \<and> (list_all (\<lambda>code. list_all (\<lambda>(k, v). json_compliant v) (product_json G code))
         (product_codes sample) \<longrightarrow>
        get_products_non_streaming G sample =
          Inr (map (product_json G) (product_codes sample)))
   \<and> (get_products_non_streaming G sample = Inr rs \<longrightarrow>
        get_products G sample = map encode_product rs
        \<and> map (map fst) rs = replicate (length (product_codes sample)) KEYS)
   \<and> (list_all clean_cluster (clusters sample) \<longrightarrow>
        received (get_clusters sample) = get_clusters_non_streaming sample)
   \<and> (list_all (clean_product G) (product_codes sample)
        \<and> get_products_non_streaming G sample = Inr rs \<longrightarrow>
        map parse_product (received (get_products G sample)) =
          map (map (\<lambda>(k, v). (k, py_str v))) rs)
   \<and> (list_all clean_association (associations sample) \<longrightarrow>
        map (\<lambda>x. association_step x []) (received (get_associations sample)) =
          map (\<lambda>entry. Inr ([Association (fst entry) (snd entry)], [entry]))
            (get_associations_non_streaming sample))"
proof -
  have c1: "get_clusters sample = map encode_cluster (get_clusters_non_streaming sample)"
    by (simp add: get_clusters_def stream_cluster_names_def get_clusters_non_streaming_def
        encode_cluster_def)
  have c2: "get_associations sample =
       map encode_association (get_associations_non_streaming sample)"
    by (simp add: get_associations_def stream_associations_def
        get_associations_non_streaming_def encode_association_def case_prod_beta)
  have c3: "list_all (\<lambda>code. list_all (\<lambda>(k, v). json_compliant v) (product_json G code))
         (product_codes sample) \<longrightarrow>
        get_products_non_streaming G sample =
          Inr (map (product_json G) (product_codes sample))"
    using non_streaming_answers[of G sample] by blast
  have c4: "get_products_non_streaming G sample = Inr rs \<longrightarrow>
        get_products G sample = map encode_product rs
        \<and> map (map fst) rs = replicate (length (product_codes sample)) KEYS"
  proof
    assume "get_products_non_streaming G sample = Inr rs"
    then have rs: "rs = map (product_json G) (product_codes sample)"
      by (rule non_streaming_Inr)
    show "get_products G sample = map encode_product rs
        \<and> map (map fst) rs = replicate (length (product_codes sample)) KEYS"
      unfolding rs
      by (simp add: get_products_def stream_products_def encode_product_json comp_def
          keys_product_json map_replicate_const)
  qed
  have c5: "list_all clean_cluster (clusters sample) \<longrightarrow>
        received (get_clusters sample) = get_clusters_non_streaming sample"
  proof
    assume "list_all clean_cluster (clusters sample)"
    then have "\<forall>l \<in> set (clusters sample).
        NL \<notin> set l \<and> \<not> starts_with_space l \<and> \<not> ends_with_space l"
      by (simp add: list_all_iff clean_cluster_def)
    then have "received (map (\<lambda>l. l @ [NL]) (clusters sample)) = clusters sample"
      by (rule received_lines)
    then show "received (get_clusters sample) = get_clusters_non_streaming sample"
      by (simp add: streamed_clusters get_clusters_non_streaming_def)
  qed
  have c6: "list_all (clean_product G) (product_codes sample)
        \<and> get_products_non_streaming G sample = Inr rs \<longrightarrow>
        map parse_product (received (get_products G sample)) =
          map (map (\<lambda>(k, v). (k, py_str v))) rs"
  proof
    assume h: "list_all (clean_product G) (product_codes sample)
        \<and> get_products_non_streaming G sample = Inr rs"
    then have rs: "rs = map (product_json G) (product_codes sample)"
      using non_streaming_Inr by blast
    let ?contents = "map (\<lambda>code. join ''|'' (product_fields G code)) (product_codes sample)"
    from h have cl: "\<forall>code \<in> set (product_codes sample). clean_product G code"
      by (simp add: list_all_iff)
    then have "\<forall>l \<in> set ?contents.
        NL \<notin> set l \<and> \<not> starts_with_space l \<and> \<not> ends_with_space l"
      using clean_product_content(1,2,3) by auto
    then have "received (map (\<lambda>l. l @ [NL]) ?contents) = ?contents"
      by (rule received_lines)
    then have "received (get_products G sample) = ?contents"
      by (simp add: streamed_products)
    moreover have "map parse_product ?contents =
        map (map (\<lambda>(k, v). (k, py_str v))) (map (product_json G) (product_codes sample))"
      using cl by (simp add: clean_product_content(4) rendered_json)
    ultimately show "map parse_product (received (get_products G sample)) =
          map (map (\<lambda>(k, v). (k, py_str v))) rs"
      by (simp add: rs)
  qed
  have c7: "list_all clean_association (associations sample) \<longrightarrow>
        map (\<lambda>x. association_step x []) (received (get_associations sample)) =
          map (\<lambda>entry. Inr ([Association (fst entry) (snd entry)], [entry]))
            (get_associations_non_streaming sample)"
  proof
    assume "list_all clean_association (associations sample)"
    then have cl: "\<forall>entry \<in> set (associations sample). clean_association (fst entry, snd entry)"
      by (simp add: list_all_iff)
    let ?contents =
      "map (\<lambda>entry. fst entry @ '': '' @ join '','' (snd entry)) (associations sample)"
    have "\<forall>l \<in> set ?contents.
        NL \<notin> set l \<and> \<not> starts_with_space l \<and> \<not> ends_with_space l"
      using cl clean_association_content(1,2,3) by auto
    then have "received (map (\<lambda>l. l @ [NL]) ?contents) = ?contents"
      by (rule received_lines)
    then have "received (get_associations sample) = ?contents"
      by (simp add: streamed_associations)
    moreover have "map (\<lambda>x. association_step x []) ?contents =
        map (\<lambda>entry. Inr ([Association (fst entry) (snd entry)], [entry])) (associations sample)"
    proof -
      have "association_step (fst entry @ '': '' @ join '','' (snd entry)) [] =
              Inr ([Association (fst entry) (snd entry)], [entry])"
        if "entry \<in> set (associations sample)" for entry
      proof -
        from that cl have "clean_association (fst entry, snd entry)" by blast
        from clean_association_content(4)[OF this] show ?thesis by simp
      qed
      then show ?thesis unfolding map_map comp_def by (intro map_cong refl)
    qed
    ultimately show "map (\<lambda>x. association_step x []) (received (get_associations sample)) =
          map (\<lambda>entry. Inr ([Association (fst entry) (snd entry)], [entry]))
            (get_associations_non_streaming sample)"
      by (simp add: get_associations_non_streaming_def)
  qed
  from c1 c2 c3 c4 c5 c6 c7 show ?thesis by blast
qed

lemma tent_records:
  "get_products_non_streaming tent_graph two_products =
     Inr [[(''name'', Str ''Trail Tent''), (''id'', Str ''8300001''), (''price'', Other ''129.99''),
           (''review_score'', Null), (''image_sign_kit'', Str ''''), (''sport'', Str ''N/A''),
           (''brand'', Str ''N/A'')],
          [(''name'', Str ''Product 8300002''), (''id'', Str ''8300002''), (''price'', Str ''N/A''),
           (''review_score'', Str ''None''), (''image_sign_kit'', Str ''''),
           (''sport'', Str ''N/A''), (''brand'', Str ''N/A'')]]"
  by (simp add: get_products_non_streaming_def JSONResponse_def product_json_def dict_get_def
      tent_graph_def two_products_def)

lemma tent_clean:
  "list_all clean_cluster (clusters two_products)"
  "list_all (clean_product tent_graph) (product_codes two_products)"
  "list_all clean_association (associations two_products)"
  "list_all (\<lambda>code. list_all (\<lambda>(k, v). json_compliant v) (product_json tent_graph code))
     (product_codes two_products)"
  by (simp_all add: two_products_def tent_graph_def clean_cluster_def clean_product_def
      clean_association_def product_fields_def product_json_def dict_get_def
      starts_with_space_def ends_with_space_def isspace_def NL_def)

theorem streamed_vs_materialised_witness:
  "get_clusters two_products = map encode_cluster (get_clusters_non_streaming two_products)
   \<and> get_associations two_products =
       map encode_association (get_associations_non_streaming two_products)
   \<and> get_products_non_streaming tent_graph two_products =
       Inr (map (product_json tent_graph) (product_codes two_products))
   \<and> get_products tent_graph two_products =
       map encode_product
         [[(''name'', Str ''Trail Tent''), (''id'', Str ''8300001''), (''price'', Other ''129.99''),
           (''review_score'', Null), (''image_sign_kit'', Str ''''), (''sport'', Str ''N/A''),
           (''brand'', Str ''N/A'')],
          [(''name'', Str ''Product 8300002''), (''id'', Str ''8300002''), (''price'', Str ''N/A''),
           (''review_score'', Str ''None''), (''image_sign_kit'', Str ''''),
           (''sport'', Str ''N/A''), (''brand'', Str ''N/A'')]]
   \<and> received (get_clusters two_products) = get_clusters_non_streaming two_products
   \<and> map parse_product (received (get_products tent_graph two_products)) =
       map (map (\<lambda>(k, v). (k, py_str v)))
         [[(''name'', Str ''Trail Tent''), (''id'', Str ''8300001''), (''price'', Other ''129.99''),
           (''review_score'', Null), (''image_sign_kit'', Str ''''), (''sport'', Str ''N/A''),
           (''brand'', Str ''N/A'')],
          [(''name'', Str ''Product 8300002''), (''id'', Str ''8300002''), (''price'', Str ''N/A''),
           (''review_score'', Str ''None''), (''image_sign_kit'', Str ''''),
           (''sport'', Str ''N/A''), (''brand'', Str ''N/A'')]]
   \<and> map (\<lambda>x. association_step x []) (received (get_associations two_products)) =
       map (\<lambda>entry. Inr ([Association (fst entry) (snd entry)], [entry]))
         (get_associations_non_streaming two_products)"
  using streamed_vs_materialised
    [where sample = two_products and G = tent_graph
       and rs = "[[(''name'', Str ''Trail Tent''), (''id'', Str ''8300001''),
                   (''price'', Other ''129.99''), (''review_score'', Null),
                   (''image_sign_kit'', Str ''''), (''sport'', Str ''N/A''),
                   (''brand'', Str ''N/A'')],
                  [(''name'', Str ''Product 8300002''), (''id'', Str ''8300002''),
                   (''price'', Str ''N/A''), (''review_score'', Str ''None''),
                   (''image_sign_kit'', Str ''''), (''sport'', Str ''N/A''),
                   (''brand'', Str ''N/A'')]]"]
    tent_records tent_clean
  by blast

text \<open>
  C5 as stated covers every stored sample. When the price of a sampled product is not a
  finite number, the streaming endpoint yields its lines and the non-streaming endpoint
  raises: there is no content to compare.
\<close>

theorem non_finite_price_counterexample:
  "get_products_non_streaming overflow_graph two_products = Inl ValueError
   \<and> get_products overflow_graph two_products =
       [''Trail Tent|8300001|inf|None||N/A|N/A'' @ [NL],
        ''Camp Stove|8300002|49.9|None||N/A|N/A'' @ [NL]]"
  by (simp add: get_products_non_streaming_def JSONResponse_def product_json_def dict_get_def
      overflow_graph_def two_products_def get_products_def stream_products_def
      product_line_def)

section \<open>Accumulation in the consumer\<close>

lemma ids_of_append:
  "ids_of ps = Inr seen \<Longrightarrow> map_of p ''id'' = Some i \<Longrightarrow> ids_of (ps @ [p]) = Inr (seen @ [i])"
  by (induction ps arbitrary: seen) (auto simp: dict_item_def split: option.splits sum.splits)

lemma product_step_ok:
  assumes "ids_of ps = Inr seen" and "map_of (parse_product x) ''id'' = Some i"
  shows "product_step x ps =
           (if i \<notin> set seen then Inr ([Product (parse_product x)], ps @ [parse_product x])
            else Inr ([], ps))"
  using assms by (simp add: product_step_def dict_item_def Let_def)

lemma product_step_no_id:
  "map_of (parse_product x) ''id'' = None \<Longrightarrow> product_step x ps = Inl (KeyError ''id'')"
  by (simp add: product_step_def dict_item_def)

lemma split_char_nonempty: "split_char d s \<noteq> []"
  by (induction s) (auto split: list.splits)

lemma has_id_iff: "map_of (parse_product x) ''id'' \<noteq> None \<longleftrightarrow> 2 \<le> length (split_char CHR ''|'' x)"
proof (cases "split_char CHR ''|'' x")
  case Nil
  then show ?thesis using split_char_nonempty by blast
next
  case (Cons a as)
  then show ?thesis by (cases as) (simp_all add: parse_product_def KEYS_def)
qed

lemma drive_append:
  "drive u body (xs @ ys) st =
     (case drive u body xs st of
        (a, Inl e) \<Rightarrow> (a, Inl e)
      | (a, Inr st') \<Rightarrow> (case drive u body ys st' of (a', r) \<Rightarrow> (a @ a', r)))"
  by (induction u body xs st rule: drive.induct) (auto split: prod.splits sum.splits)





lemma association_step_ok:
  "split_pair CHR '':'' CHR '' '' x = [c, p] \<Longrightarrow>
   association_step x assocs =
     Inr ([Association c (split_char CHR '','' p)],
          AList.update c (split_char CHR '','' p) assocs)"
  by (simp add: association_step_def)

lemma association_step_bad:
  "length (split_pair CHR '':'' CHR '' '' x) \<noteq> 2 \<Longrightarrow> association_step x assocs = Inl ValueError"
  by (auto simp: association_step_def split: list.splits)




lemma ids_of_Nil: "ids_of [] = Inr []"
  by simp



text \<open>
  C10: for products the first line wins. A line whose id is already among the accumulated
  products changes nothing and yields no event; of two lines with the same id the
  record of the first is the one kept and the only one announced. For associations the
  later of two lines for a label replaces the earlier.
\<close>

theorem product_first_write_wins:
  "(ids_of ps = Inr seen \<and> map_of (parse_product x) ''id'' = Some i \<and> i \<in> set seen \<longrightarrow>
      product_step x ps = Inr ([], ps))
   \<and> (map_of (parse_product x1) ''id'' = Some j \<and> map_of (parse_product x2) ''id'' = Some j \<longrightarrow>
        drive Products_url product_step [Line x1, Line x2] [] =
          ([Emit (Product (parse_product x1))], Inr [parse_product x1]))
   \<and> (split_pair CHR '':'' CHR '' '' y1 = [k, p1] \<and> split_pair CHR '':'' CHR '' '' y2 = [k, p2] \<longrightarrow>
        snd (drive Associations_url association_step [Line y1, Line y2] []) =
          Inr [(k, split_char CHR '','' p2)])"
proof -
  have a: "ids_of ps = Inr seen \<and> map_of (parse_product x) ''id'' = Some i \<and> i \<in> set seen \<longrightarrow>
      product_step x ps = Inr ([], ps)"
    using product_step_ok[of ps seen x i] by simp
  have b: "map_of (parse_product x1) ''id'' = Some j \<and> map_of (parse_product x2) ''id'' = Some j \<longrightarrow>
        drive Products_url product_step [Line x1, Line x2] [] =
          ([Emit (Product (parse_product x1))], Inr [parse_product x1])"
  proof
    assume h: "map_of (parse_product x1) ''id'' = Some j \<and> map_of (parse_product x2) ''id'' = Some j"
    have s1: "product_step x1 [] = Inr ([Product (parse_product x1)], [parse_product x1])"
      using product_step_ok[OF ids_of_Nil conjunct1[OF h]] by simp
    have "ids_of ([] @ [parse_product x1]) = Inr ([] @ [j])"
      using ids_of_Nil conjunct1[OF h] by (rule ids_of_append)
    then have "ids_of [parse_product x1] = Inr [j]" by simp
    from product_step_ok[OF this conjunct2[OF h]]
    have s2: "product_step x2 [parse_product x1] = Inr ([], [parse_product x1])" by simp
    show "drive Products_url product_step [Line x1, Line x2] [] =
          ([Emit (Product (parse_product x1))], Inr [parse_product x1])"
      by (simp add: s1 s2)
  qed
  have c: "split_pair CHR '':'' CHR '' '' y1 = [k, p1] \<and> split_pair CHR '':'' CHR '' '' y2 = [k, p2] \<longrightarrow>
        snd (drive Associations_url association_step [Line y1, Line y2] []) =
          Inr [(k, split_char CHR '','' p2)]"
    by (simp add: association_step_ok)
  from a b c show ?thesis by blast
qed

theorem product_first_write_wins_witness:
  "product_step ''Big tent|77|25|5.0|p2|Hiking|Forclaz''
      [parse_product ''Tent|77|10|4.5|p1|Camping|Quechua''] =
     Inr ([], [parse_product ''Tent|77|10|4.5|p1|Camping|Quechua''])
   \<and> drive Products_url product_step
        [Line ''Tent|77|10|4.5|p1|Camping|Quechua'', Line ''Big tent|77|25|5.0|p2|Hiking|Forclaz''] [] =
        ([Emit (Product (parse_product ''Tent|77|10|4.5|p1|Camping|Quechua''))],
         Inr [parse_product ''Tent|77|10|4.5|p1|Camping|Quechua''])
   \<and> snd (drive Associations_url association_step [Line ''Golf: 77,78'', Line ''Golf: 79''] []) =
        Inr [(''Golf'', [''79''])]"
  using product_first_write_wins
    [where ps = "[parse_product ''Tent|77|10|4.5|p1|Camping|Quechua'']" and seen = "[''77'']"
       and x = "''Big tent|77|25|5.0|p2|Hiking|Forclaz''" and i = "''77''"
       and ?x1.0 = "''Tent|77|10|4.5|p1|Camping|Quechua''"
       and ?x2.0 = "''Big tent|77|25|5.0|p2|Hiking|Forclaz''" and j = "''77''"
       and ?y1.0 = "''Golf: 77,78''" and ?y2.0 = "''Golf: 79''" and k = "''Golf''"
       and ?p1.0 = "''77,78''" and ?p2.0 = "''79''"]
  by (simp add: parse_product_def KEYS_def dict_item_def)

section \<open>Retries and failures in the consumer\<close>

lemma upt_3: "[0..<3] = [0, 1, 2]"
  by (simp add: upt_rec)

lemma fetch_data_broken:
  "fetch_data (Status 200) broken_association_server =
     [Get Clusters_url, Emit (Cluster ''Golf''), Get Clusters_url, Get Clusters_url,
      Get Products_url, Emit (Product (parse_product ''Tent|77|10|4.5|p1|Camping|Quechua'')),
      Get Products_url, Get Products_url,
      Get Associations_url, Emit (Error ValueError)]"
  by (simp add: fetch_data_def fetch_stream_def upt_3 broken_association_server_def
      strip_def isspace_def NL_def cluster_step_def product_step_def parse_product_def KEYS_def
      dict_item_def association_step_def Let_def)

lemma fetch_data_failing:
  "fetch_data (Status 200) failing_products_server =
     [Get Clusters_url, Emit (Cluster ''Golf''), Get Clusters_url, Get Clusters_url,
      Get Products_url, Sleep 1,
      Get Products_url, Emit (Product (parse_product ''Tent|77|10|4.5|p1|Camping|Quechua'')),
      Sleep 1, Get Products_url,
      Emit (Error (ClientError ''Cannot connect to host''))]"
  by (simp add: fetch_data_def fetch_stream_def upt_3 failing_products_server_def
      strip_def isspace_def NL_def cluster_step_def product_step_def parse_product_def KEYS_def
      dict_item_def association_step_def Let_def)

lemma fetch_stream_all_fail:
  assumes "get 0 = (b0, Some e0)" and "get 1 = (b1, Some e1)" and "get 2 = (b2, Some e2)"
  shows "fetch_stream get 3 =
           (Opened # map Line (map strip b0)) @ (Slept 1 # Opened # map Line (map strip b1))
             @ (Slept 1 # Opened # map Line (map strip b2)) @ [Raised e2]"
  using assms by (simp add: fetch_stream_def upt_3)

lemma drive_lines_events:
  "drive u body (map Line xs) st = (acts, r) \<Longrightarrow> \<forall>a \<in> set acts. is_event a"
  by (induction xs arbitrary: st acts r) (auto split: sum.splits prod.splits)

lemma drive_lines_ok:
  assumes step: "\<And>x st. A x \<Longrightarrow> I st \<Longrightarrow> \<exists>evs st'. body x st = Inr (evs, st') \<and> I st'"
  shows "\<forall>x \<in> set xs. A x \<Longrightarrow> I st \<Longrightarrow>
         \<exists>acts st'. drive u body (map Line xs) st = (acts, Inr st') \<and> I st'"
proof (induction xs arbitrary: st)
  case Nil
  then show ?case by simp
next
  case (Cons x xs)
  from Cons.prems have "A x" "I st" by simp_all
  from step[OF this] obtain evs st1 where s: "body x st = Inr (evs, st1)" "I st1" by blast
  from Cons.prems have "\<forall>x \<in> set xs. A x" by simp
  from Cons.IH[OF this s(2)] obtain acts st' where
    "drive u body (map Line xs) st1 = (acts, Inr st')" "I st'" by blast
  with s show ?case by simp
qed

lemma drive_actions:
  assumes ev: "\<And>x st evs st'. body x st = Inr (evs, st') \<Longrightarrow> \<forall>ev \<in> set evs. \<not> terminal (Emit ev)"
  shows "a \<in> set (fst (drive u body its st)) \<Longrightarrow> \<not> terminal a \<and> (\<forall>v. a = Get v \<longrightarrow> v = u)"
proof (induction its arbitrary: st)
  case Nil
  then show ?case by simp
next
  case (Cons it its)
  show ?case
  proof (cases it)
    case Opened
    with Cons.prems have "a = Get u \<or> a \<in> set (fst (drive u body its st))"
      by (auto split: prod.splits)
    then show ?thesis using Cons.IH by auto
  next
    case (Slept n)
    with Cons.prems have "a = Sleep n \<or> a \<in> set (fst (drive u body its st))"
      by (auto split: prod.splits)
    then show ?thesis using Cons.IH by auto
  next
    case (Raised e)
    with Cons show ?thesis by simp
  next
    case (Line x)
    show ?thesis
    proof (cases "body x st")
      case (Inl e)
      with Cons.prems Line show ?thesis by simp
    next
      case (Inr p)
      obtain evs st' where p: "p = (evs, st')" by (cases p)
      from Inr p have b: "body x st = Inr (evs, st')" by simp
      from Cons.prems Line b have "a \<in> Emit ` set evs \<or> a \<in> set (fst (drive u body its st'))"
        by (auto split: prod.splits)
      then show ?thesis
      proof
        assume "a \<in> Emit ` set evs"
        with ev[OF b] show ?thesis by auto
      next
        assume "a \<in> set (fst (drive u body its st'))"
        then show ?thesis by (rule Cons.IH)
      qed
    qed
  qed
qed

lemma phase_all_fail:
  assumes step: "\<And>x st. A x \<Longrightarrow> I st \<Longrightarrow> \<exists>evs st'. body x st = Inr (evs, st') \<and> I st'"
    and "I st0"
    and g: "get 0 = (b0, Some e0)" "get 1 = (b1, Some e1)" "get 2 = (b2, Some e2)"
    and acc: "\<forall>x \<in> set b0. A (strip x)" "\<forall>x \<in> set b1. A (strip x)" "\<forall>x \<in> set b2. A (strip x)"
  shows "\<exists>acts. drive u body (fetch_stream get 3) st0 = (acts, Inl (ClientError e2))
           \<and> filter (\<lambda>a. \<not> is_event a) acts = [Get u, Sleep 1, Get u, Sleep 1, Get u]"
proof -
  have a0: "\<forall>x \<in> set (map strip b0). A x" using acc(1) by simp
  from drive_lines_ok[where A = A and I = I and body = body, OF step a0 \<open>I st0\<close>] obtain acts0 st1 where
    d0: "drive u body (map Line (map strip b0)) st0 = (acts0, Inr st1)" "I st1" by blast
  have a1: "\<forall>x \<in> set (map strip b1). A x" using acc(2) by simp
  from drive_lines_ok[where A = A and I = I and body = body, OF step a1 d0(2)] obtain acts1 st2 where
    d1: "drive u body (map Line (map strip b1)) st1 = (acts1, Inr st2)" "I st2" by blast
  have a2: "\<forall>x \<in> set (map strip b2). A x" using acc(3) by simp
  from drive_lines_ok[where A = A and I = I and body = body, OF step a2 d1(2)] obtain acts2 st3 where
    d2: "drive u body (map Line (map strip b2)) st2 = (acts2, Inr st3)" "I st3" by blast
  have f0: "filter (\<lambda>a. \<not> is_event a) acts0 = []"
    using drive_lines_events[OF d0(1)] by (simp add: filter_empty_conv)
  have f1: "filter (\<lambda>a. \<not> is_event a) acts1 = []"
    using drive_lines_events[OF d1(1)] by (simp add: filter_empty_conv)
  have f2: "filter (\<lambda>a. \<not> is_event a) acts2 = []"
    using drive_lines_events[OF d2(1)] by (simp add: filter_empty_conv)
  have "drive u body (fetch_stream get 3) st0 =
          (Get u # acts0 @ Sleep 1 # Get u # acts1 @ Sleep 1 # Get u # acts2,
           Inl (ClientError e2))"
    unfolding fetch_stream_all_fail[OF g]
    by (simp add: drive_append d0 d1 d2 del: map_map)
  moreover have "filter (\<lambda>a. \<not> is_event a)
       (Get u # acts0 @ Sleep 1 # Get u # acts1 @ Sleep 1 # Get u # acts2) =
       [Get u, Sleep 1, Get u, Sleep 1, Get u]"
    by (simp add: f0 f1 f2)
  ultimately show ?thesis by blast
qed

lemma cluster_events:
  "cluster_step x st = Inr (evs, st') \<Longrightarrow> \<forall>ev \<in> set evs. \<not> terminal (Emit ev)"
  by (auto simp: cluster_step_def split: if_splits)

lemma product_events:
  "product_step x st = Inr (evs, st') \<Longrightarrow> \<forall>ev \<in> set evs. \<not> terminal (Emit ev)"
  by (auto simp: product_step_def Let_def split: if_splits sum.splits)

lemma association_events:
  "association_step x st = Inr (evs, st') \<Longrightarrow> \<forall>ev \<in> set evs. \<not> terminal (Emit ev)"
  by (auto simp: association_step_def split: list.splits)

lemma cluster_step_total:
  "True \<Longrightarrow> True \<Longrightarrow> \<exists>evs st'. cluster_step x st = Inr (evs, st') \<and> True"
  by (simp add: cluster_step_def)

lemma product_step_total:
  "map_of (parse_product x) ''id'' \<noteq> None \<Longrightarrow> (\<exists>seen. ids_of st = Inr seen) \<Longrightarrow>
   \<exists>evs st'. product_step x st = Inr (evs, st') \<and> (\<exists>seen. ids_of st' = Inr seen)"
proof -
  assume "map_of (parse_product x) ''id'' \<noteq> None" and "\<exists>seen. ids_of st = Inr seen"
  then obtain i seen where i: "map_of (parse_product x) ''id'' = Some i"
    and s: "ids_of st = Inr seen" by blast
  show ?thesis
  proof (cases "i \<in> set seen")
    case True
    with product_step_ok[OF s i] s show ?thesis by simp
  next
    case False
    with product_step_ok[OF s i] ids_of_append[OF s i] show ?thesis by simp
  qed
qed

lemma association_step_total:
  "length (split_pair CHR '':'' CHR '' '' x) = 2 \<Longrightarrow> True \<Longrightarrow>
   \<exists>evs st'. association_step x st = Inr (evs, st') \<and> True"
proof -
  assume "length (split_pair CHR '':'' CHR '' '' x) = 2"
  then obtain c p where "split_pair CHR '':'' CHR '' '' x = [c, p]"
    by (cases "split_pair CHR '':'' CHR '' '' x" rule: list.exhaust)
       (auto simp: length_Suc_conv)
  then show ?thesis by (simp add: association_step_ok)
qed

lemma fetch_data_not_started:
  "post \<noteq> Status 200 \<Longrightarrow> Get u \<notin> set (fetch_data post server)"
  by (cases post) (auto simp: fetch_data_def)

lemma fetch_data_clusters_raise:
  "drive Clusters_url cluster_step (fetch_stream (server Clusters_url) 3) [] = (a1, Inl e) \<Longrightarrow>
   fetch_data (Status 200) server = a1 @ [Emit (Error e)]"
  by (simp add: fetch_data_def)

lemma fetch_data_products_raise:
  "drive Clusters_url cluster_step (fetch_stream (server Clusters_url) 3) [] = (a1, Inr cs) \<Longrightarrow>
   drive Products_url product_step (fetch_stream (server Products_url) 3) [] = (a2, Inl e) \<Longrightarrow>
   fetch_data (Status 200) server = a1 @ a2 @ [Emit (Error e)]"
  by (simp add: fetch_data_def)

lemma fetch_data_associations_raise:
  "drive Clusters_url cluster_step (fetch_stream (server Clusters_url) 3) [] = (a1, Inr cs) \<Longrightarrow>
   drive Products_url product_step (fetch_stream (server Products_url) 3) [] = (a2, Inr ps) \<Longrightarrow>
   drive Associations_url association_step (fetch_stream (server Associations_url) 3) [] =
     (a3, Inl e) \<Longrightarrow>
   fetch_data (Status 200) server = a1 @ a2 @ a3 @ [Emit (Error e)]"
  by (simp add: fetch_data_def)

lemma clusters_actions:
  "drive Clusters_url cluster_step its st = (acts, r) \<Longrightarrow> a \<in> set acts \<Longrightarrow>
   \<not> terminal a \<and> (\<forall>v. a = Get v \<longrightarrow> v = Clusters_url)"
  using drive_actions[of cluster_step a Clusters_url its st, OF cluster_events] by simp

lemma products_actions:
  "drive Products_url product_step its st = (acts, r) \<Longrightarrow> a \<in> set acts \<Longrightarrow>
   \<not> terminal a \<and> (\<forall>v. a = Get v \<longrightarrow> v = Products_url)"
  using drive_actions[of product_step a Products_url its st, OF product_events] by simp

lemma associations_actions:
  "drive Associations_url association_step its st = (acts, r) \<Longrightarrow> a \<in> set acts \<Longrightarrow>
   \<not> terminal a \<and> (\<forall>v. a = Get v \<longrightarrow> v = Associations_url)"
  using drive_actions[of association_step a Associations_url its st, OF association_events]
  by simp

text \<open>
  When every attempt on a stream fails at the transport level, the consumer has opened
  the stream and the lines that arrived before each failure do not make the loop body
  raise, the run makes exactly three requests for that stream, with a sleep of 1 after
  the first and after the second; it ends with one \<open>error\<close> event that carries the
  failure of the third attempt; no other \<open>error\<close> or \<open>complete\<close> event occurs, and no
  later stream is requested.
\<close>

lemma all_attempts_fail:
  assumes fail: "\<forall>i < 3. snd (server u i) \<noteq> None"
    and acc: "\<forall>i < 3. \<forall>x \<in> set (fst (server u i)). accepts u (strip x)"
    and opened: "Get u \<in> set (fetch_data post server)"
  shows "\<exists>before during e.
           fetch_data post server = before @ during @ [Emit (Error (ClientError e))]
           \<and> snd (server u 2) = Some e
           \<and> Get u \<notin> set before
           \<and> filter (\<lambda>a. \<not> is_event a) during = [Get u, Sleep 1, Get u, Sleep 1, Get u]
           \<and> (\<forall>a \<in> set (before @ during). \<not> terminal a)
           \<and> (\<forall>v \<in> set (later u). Get v \<notin> set (before @ during))"
proof -
  have post: "post = Status 200" using opened fetch_data_not_started by blast
  have f0: "snd (server u 0) \<noteq> None" and f1: "snd (server u 1) \<noteq> None"
    and f2: "snd (server u 2) \<noteq> None"
    using fail by simp_all
  obtain b0 e0 where g0: "server u 0 = (b0, Some e0)"
    using f0 by (cases "server u 0") auto
  obtain b1 e1 where g1: "server u 1 = (b1, Some e1)"
    using f1 by (cases "server u 1") auto
  obtain b2 e2 where g2: "server u 2 = (b2, Some e2)"
    using f2 by (cases "server u 2") auto
  have l: "\<And>i x. i < 3 \<Longrightarrow> x \<in> set (fst (server u i)) \<Longrightarrow> accepts u (strip x)"
    using acc by blast
  have l0: "\<forall>x \<in> set b0. accepts u (strip x)" using l[of 0] g0 by simp
  have l1: "\<forall>x \<in> set b1. accepts u (strip x)" using l[of 1] g1 by simp
  have l2: "\<forall>x \<in> set b2. accepts u (strip x)" using l[of 2] g2 by simp
  obtain a1 r1 where R1:
    "drive Clusters_url cluster_step (fetch_stream (server Clusters_url) 3) [] = (a1, r1)"
    by fastforce
  obtain a2 r2 where R2:
    "drive Products_url product_step (fetch_stream (server Products_url) 3) [] = (a2, r2)"
    by fastforce
  note A1 = clusters_actions[OF R1]
  note A2 = products_actions[OF R2]
  show ?thesis
  proof (cases u)
    case Clusters_url
    from phase_all_fail[where A = "\<lambda>x. True" and I = "\<lambda>st. True" and body = cluster_step
        and ?st0.0 = "[]" and get = "server Clusters_url" and u = Clusters_url,
        OF cluster_step_total TrueI g0[unfolded Clusters_url] g1[unfolded Clusters_url]
          g2[unfolded Clusters_url]]
    obtain acts where
      d: "drive Clusters_url cluster_step (fetch_stream (server Clusters_url) 3) [] =
            (acts, Inl (ClientError e2))"
      and f: "filter (\<lambda>a. \<not> is_event a) acts =
            [Get Clusters_url, Sleep 1, Get Clusters_url, Sleep 1, Get Clusters_url]"
      by auto
    have fd: "fetch_data post server = [] @ acts @ [Emit (Error (ClientError e2))]"
      using fetch_data_clusters_raise[where server = server, OF d] post by simp
    have nt: "\<forall>a \<in> set ([] @ acts). \<not> terminal a"
      using clusters_actions[OF d] by auto
    have nl: "\<forall>v \<in> set (later u). Get v \<notin> set ([] @ acts)"
      using clusters_actions[OF d] Clusters_url by auto
    show ?thesis
      using fd g2 f nt nl Clusters_url
      by (intro exI[of _ "[]"] exI[of _ acts] exI[of _ e2]) simp
  next
    case Products_url
    have "\<exists>cs. r1 = Inr cs"
    proof (cases r1)
      case (Inl e)
      with R1 post have "fetch_data post server = a1 @ [Emit (Error e)]"
        by (simp add: fetch_data_clusters_raise)
      with opened have "Get u \<in> set a1" by simp
      with A1 Products_url show ?thesis by auto
    qed simp
    then obtain cs where r1: "r1 = Inr cs" by blast
    have pa: "\<forall>x \<in> set b0. map_of (parse_product (strip x)) ''id'' \<noteq> None"
      "\<forall>x \<in> set b1. map_of (parse_product (strip x)) ''id'' \<noteq> None"
      "\<forall>x \<in> set b2. map_of (parse_product (strip x)) ''id'' \<noteq> None"
      using l0 l1 l2 Products_url by simp_all
    have i0: "\<exists>seen. ids_of [] = Inr seen" by simp
    from phase_all_fail[where A = "\<lambda>x. map_of (parse_product x) ''id'' \<noteq> None"
        and I = "\<lambda>st. \<exists>seen. ids_of st = Inr seen" and body = product_step
        and ?st0.0 = "[]" and get = "server Products_url" and u = Products_url,
        OF product_step_total i0 g0[unfolded Products_url] g1[unfolded Products_url]
          g2[unfolded Products_url] pa]
    obtain acts where
      d: "drive Products_url product_step (fetch_stream (server Products_url) 3) [] =
            (acts, Inl (ClientError e2))"
      and f: "filter (\<lambda>a. \<not> is_event a) acts =
            [Get Products_url, Sleep 1, Get Products_url, Sleep 1, Get Products_url]"
      by auto
    have fd: "fetch_data post server = a1 @ acts @ [Emit (Error (ClientError e2))]"
      using fetch_data_products_raise[where server = server, OF R1[unfolded r1] d] post by simp
    have nb: "Get u \<notin> set a1" using A1 Products_url by auto
    have nt: "\<forall>a \<in> set (a1 @ acts). \<not> terminal a"
      using A1 products_actions[OF d] by auto
    have nl: "\<forall>v \<in> set (later u). Get v \<notin> set (a1 @ acts)"
      using A1 products_actions[OF d] Products_url by auto
    show ?thesis
      using fd g2 f nb nt nl Products_url
      by (intro exI[of _ a1] exI[of _ acts] exI[of _ e2]) simp
  next
    case Associations_url
    have "\<exists>cs. r1 = Inr cs"
    proof (cases r1)
      case (Inl e)
      with R1 post have "fetch_data post server = a1 @ [Emit (Error e)]"
        by (simp add: fetch_data_clusters_raise)
      with opened have "Get u \<in> set a1" by simp
      with A1 Associations_url show ?thesis by auto
    qed simp
    then obtain cs where r1: "r1 = Inr cs" by blast
    have "\<exists>ps. r2 = Inr ps"
    proof (cases r2)
      case (Inl e)
      with R1 R2 r1 post have "fetch_data post server = a1 @ a2 @ [Emit (Error e)]"
        by (simp add: fetch_data_products_raise)
      with opened have "Get u \<in> set a1 \<or> Get u \<in> set a2" by auto
      with A1 A2 Associations_url show ?thesis by auto
    qed simp
    then obtain ps where r2: "r2 = Inr ps" by blast
    have pa: "\<forall>x \<in> set b0. length (split_pair CHR '':'' CHR '' '' (strip x)) = 2"
      "\<forall>x \<in> set b1. length (split_pair CHR '':'' CHR '' '' (strip x)) = 2"
      "\<forall>x \<in> set b2. length (split_pair CHR '':'' CHR '' '' (strip x)) = 2"
      using l0 l1 l2 Associations_url by simp_all
    from phase_all_fail[where A = "\<lambda>x. length (split_pair CHR '':'' CHR '' '' x) = 2"
        and I = "\<lambda>st. True" and body = association_step
        and ?st0.0 = "[]" and get = "server Associations_url" and u = Associations_url,
        OF association_step_total TrueI g0[unfolded Associations_url]
          g1[unfolded Associations_url] g2[unfolded Associations_url] pa]
    obtain acts where
      d: "drive Associations_url association_step
            (fetch_stream (server Associations_url) 3) [] = (acts, Inl (ClientError e2))"
      and f: "filter (\<lambda>a. \<not> is_event a) acts =
            [Get Associations_url, Sleep 1, Get Associations_url, Sleep 1,
             Get Associations_url]"
      by auto
    have fd: "fetch_data post server =
        (a1 @ a2) @ acts @ [Emit (Error (ClientError e2))]"
      using fetch_data_associations_raise[where server = server, OF R1[unfolded r1] R2[unfolded r2] d] post by simp
    have nb: "Get u \<notin> set (a1 @ a2)" using A1 A2 Associations_url by auto
    have nt: "\<forall>a \<in> set ((a1 @ a2) @ acts). \<not> terminal a"
      using A1 A2 associations_actions[OF d] by auto
    have nl: "\<forall>v \<in> set (later u). Get v \<notin> set ((a1 @ a2) @ acts)"
      using Associations_url by simp
    show ?thesis
      using fd g2 f nb nt nl Associations_url
      by (intro exI[of _ "a1 @ a2"] exI[of _ acts] exI[of _ e2]) simp
  qed
qed

lemma all_attempts_fail_example:
  "snd (failing_products_server Products_url 0) = Some ''HTTP Status 503''
   \<and> snd (failing_products_server Products_url 1) = Some ''Response payload is not completed''
   \<and> snd (failing_products_server Products_url 2) = Some ''Cannot connect to host''
   \<and> Get Products_url \<in> set (fetch_data (Status 200) failing_products_server)
   \<and> (\<exists>before during e.
         fetch_data (Status 200) failing_products_server =
           before @ during @ [Emit (Error (ClientError e))]
         \<and> snd (failing_products_server Products_url 2) = Some e
         \<and> Get Products_url \<notin> set before
         \<and> filter (\<lambda>a. \<not> is_event a) during =
             [Get Products_url, Sleep 1, Get Products_url, Sleep 1, Get Products_url]
         \<and> (\<forall>a \<in> set (before @ during). \<not> terminal a)
         \<and> (\<forall>v \<in> set (later Products_url). Get v \<notin> set (before @ during)))"
proof -
  have h1: "\<forall>i < 3. snd (failing_products_server Products_url i) \<noteq> None"
    by (simp add: failing_products_server_def)
  have h2: "\<forall>i < 3. \<forall>x \<in> set (fst (failing_products_server Products_url i)).
          accepts Products_url (strip x)"
    by (simp add: failing_products_server_def strip_def isspace_def NL_def parse_product_def
        KEYS_def)
  have h3: "Get Products_url \<in> set (fetch_data (Status 200) failing_products_server)"
    by (simp add: fetch_data_failing)
  have h4: "snd (failing_products_server Products_url 0) = Some ''HTTP Status 503''
   \<and> snd (failing_products_server Products_url 1) = Some ''Response payload is not completed''
   \<and> snd (failing_products_server Products_url 2) = Some ''Cannot connect to host''"
    by (simp add: failing_products_server_def)
  from all_attempts_fail[OF h1 h2 h3] h3 h4 show ?thesis by blast
qed

lemma fetch_data_late_failure:
  "fetch_data (Status 200) late_failure_server =
     [Get Clusters_url, Emit (Cluster ''Golf''), Get Clusters_url, Get Clusters_url,
      Get Products_url, Emit (Product (parse_product ''Tent|77|10|4.5|p1|Camping|Quechua'')),
      Get Products_url, Get Products_url,
      Emit (Error (ClientError ''Server disconnected''))]"
  by (simp add: fetch_data_def fetch_stream_def upt_3 late_failure_server_def
      strip_def isspace_def NL_def cluster_step_def product_step_def parse_product_def KEYS_def
      dict_item_def association_step_def Let_def)

text \<open>
  C6: the claim lets the \<open>error\<close> event come after the third failure of a stream, each
  earlier failure being followed by a sleep of 1 and a new attempt. The product stream of
  \<open>late_failure_server\<close> is delivered in full at the first request and again at the
  second, which \<open>fetch_stream\<close> makes because a successful attempt does not leave its
  loop, and fails for the first time at the third request. The run ends there with the
  \<open>error\<close> event: one failure, no sleep, no retry, and the associations are never
  requested.
\<close>

theorem late_failure_ends_run:
  "late_failure_server Products_url 0 =
     ([''Tent|77|10|4.5|p1|Camping|Quechua'' @ [NL]], None)
   \<and> late_failure_server Products_url 1 =
     ([''Tent|77|10|4.5|p1|Camping|Quechua'' @ [NL]], None)
   \<and> late_failure_server Products_url 2 = ([], Some ''Server disconnected'')
   \<and> fetch_data (Status 200) late_failure_server =
     [Get Clusters_url, Emit (Cluster ''Golf''), Get Clusters_url, Get Clusters_url,
      Get Products_url, Emit (Product (parse_product ''Tent|77|10|4.5|p1|Camping|Quechua'')),
      Get Products_url, Get Products_url,
      Emit (Error (ClientError ''Server disconnected''))]"
  by (simp add: fetch_data_late_failure) (simp add: late_failure_server_def)

lemma map_fst_parse_product:
  "map fst (parse_product x) = take (length (split_char CHR ''|'' x)) KEYS"
  by (simp add: parse_product_def map_fst_zip_take min_def)

lemma length_KEYS: "length KEYS = 7"
  by (simp add: KEYS_def)

lemma map_snd_parse_product:
  "map snd (parse_product x) = take 7 (split_char CHR ''|'' x)"
  by (simp add: parse_product_def map_snd_zip_take length_KEYS min_def)

lemma id_of_parse_product:
  "2 \<le> length (split_char CHR ''|'' x) \<Longrightarrow>
   map_of (parse_product x) ''id'' = Some (split_char CHR ''|'' x ! 1)"
proof -
  assume two: "2 \<le> length (split_char CHR ''|'' x)"
  then obtain a t where at: "split_char CHR ''|'' x = a # t"
    by (cases "split_char CHR ''|'' x") auto
  with two obtain b fs where "t = b # fs" by (cases t) auto
  with at show ?thesis by (simp add: parse_product_def KEYS_def)
qed

lemma drive_stops:
  "drive u body before st = (a, Inr st') \<Longrightarrow> body x st' = Inl e \<Longrightarrow>
   drive u body (before @ Line x # rest) st = (a, Inl e)"
  by (simp add: drive_append)

text \<open>
  C7 (as amended): a product line with at least two fields is accepted: its record holds
  the keys of the fields that are there and no other, with the fields as values and
  nothing in place of a missing one; unless its id was seen before, the record is
  appended and announced; and the loop goes on with the lines that follow. A review
  score that is no number is shown as \<open>Invalid review score\<close>. A product line without a
  second field raises \<open>KeyError\<close>, and an association line that \<open>': '\<close> does not cut in
  exactly two raises \<open>ValueError\<close>: the run ends there with an \<open>error\<close> event, and
  neither the lines and streams after it nor a \<open>complete\<close> event follow.
\<close>

theorem malformed_lines:
  "(2 \<le> length (split_char CHR ''|'' x) \<and> ids_of ps = Inr seen \<longrightarrow>
       map fst (parse_product x) = take (length (split_char CHR ''|'' x)) KEYS
       \<and> map snd (parse_product x) = take 7 (split_char CHR ''|'' x)
       \<and> drive Products_url product_step (Line x # rest) ps =
           (if split_char CHR ''|'' x ! 1 \<in> set seen
            then drive Products_url product_step rest ps
            else (case drive Products_url product_step rest (ps @ [parse_product x]) of
                    (acts, r) \<Rightarrow> (Emit (Product (parse_product x)) # acts, r))))
   \<and> (float s = Not_a_float \<and> s \<noteq> ''None'' \<longrightarrow>
        get_review_stars float (Some s) = Inr ''Invalid review score'')
   \<and> (drive Clusters_url cluster_step (fetch_stream (server' Clusters_url) 3) [] =
          (b1, Inr cs')
       \<and> fetch_stream (server' Products_url) 3 = before' @ Line x' # rest'
       \<and> drive Products_url product_step before' [] = (b2, Inr qs)
       \<and> length (split_char CHR ''|'' x') < 2 \<longrightarrow>
       fetch_data (Status 200) server' = b1 @ b2 @ [Emit (Error (KeyError ''id''))])
   \<and> (drive Clusters_url cluster_step (fetch_stream (server Clusters_url) 3) [] = (a1, Inr cs)
       \<and> drive Products_url product_step (fetch_stream (server Products_url) 3) [] =
           (a2, Inr rs)
       \<and> fetch_stream (server Associations_url) 3 = before @ Line y # rest''
       \<and> drive Associations_url association_step before [] = (a3, Inr assocs)
       \<and> length (split_pair CHR '':'' CHR '' '' y) \<noteq> 2 \<longrightarrow>
       fetch_data (Status 200) server = a1 @ a2 @ a3 @ [Emit (Error ValueError)])"
proof -
  have c1: "2 \<le> length (split_char CHR ''|'' x) \<and> ids_of ps = Inr seen \<longrightarrow>
       map fst (parse_product x) = take (length (split_char CHR ''|'' x)) KEYS
       \<and> map snd (parse_product x) = take 7 (split_char CHR ''|'' x)
       \<and> drive Products_url product_step (Line x # rest) ps =
           (if split_char CHR ''|'' x ! 1 \<in> set seen
            then drive Products_url product_step rest ps
            else (case drive Products_url product_step rest (ps @ [parse_product x]) of
                    (acts, r) \<Rightarrow> (Emit (Product (parse_product x)) # acts, r)))"
  proof
    assume h: "2 \<le> length (split_char CHR ''|'' x) \<and> ids_of ps = Inr seen"
    then have i: "map_of (parse_product x) ''id'' = Some (split_char CHR ''|'' x ! 1)"
      by (simp add: id_of_parse_product)
    from h have s: "ids_of ps = Inr seen" by simp
    have "drive Products_url product_step (Line x # rest) ps =
           (if split_char CHR ''|'' x ! 1 \<in> set seen
            then drive Products_url product_step rest ps
            else (case drive Products_url product_step rest (ps @ [parse_product x]) of
                    (acts, r) \<Rightarrow> (Emit (Product (parse_product x)) # acts, r)))"
      using product_step_ok[OF s i] by (auto split: prod.splits)
    then show "map fst (parse_product x) = take (length (split_char CHR ''|'' x)) KEYS
       \<and> map snd (parse_product x) = take 7 (split_char CHR ''|'' x)
       \<and> drive Products_url product_step (Line x # rest) ps =
           (if split_char CHR ''|'' x ! 1 \<in> set seen
            then drive Products_url product_step rest ps
            else (case drive Products_url product_step rest (ps @ [parse_product x]) of
                    (acts, r) \<Rightarrow> (Emit (Product (parse_product x)) # acts, r)))"
      using map_fst_parse_product map_snd_parse_product by blast
  qed
  have c2: "float s = Not_a_float \<and> s \<noteq> ''None'' \<longrightarrow>
        get_review_stars float (Some s) = Inr ''Invalid review score''"
    by (simp add: get_review_stars_def)
  have c3: "drive Clusters_url cluster_step (fetch_stream (server' Clusters_url) 3) [] =
          (b1, Inr cs')
       \<and> fetch_stream (server' Products_url) 3 = before' @ Line x' # rest'
       \<and> drive Products_url product_step before' [] = (b2, Inr qs)
       \<and> length (split_char CHR ''|'' x') < 2 \<longrightarrow>
       fetch_data (Status 200) server' = b1 @ b2 @ [Emit (Error (KeyError ''id''))]"
  proof
    assume h: "drive Clusters_url cluster_step (fetch_stream (server' Clusters_url) 3) [] =
          (b1, Inr cs')
       \<and> fetch_stream (server' Products_url) 3 = before' @ Line x' # rest'
       \<and> drive Products_url product_step before' [] = (b2, Inr qs)
       \<and> length (split_char CHR ''|'' x') < 2"
    then have "map_of (parse_product x') ''id'' = None"
      using has_id_iff[of x'] by auto
    then have bad: "product_step x' qs = Inl (KeyError ''id'')"
      by (rule product_step_no_id)
    from h have "drive Products_url product_step before' [] = (b2, Inr qs)" by simp
    from drive_stops[OF this bad]
    have "drive Products_url product_step (fetch_stream (server' Products_url) 3) [] =
            (b2, Inl (KeyError ''id''))"
      using h by simp
    with h show "fetch_data (Status 200) server' = b1 @ b2 @ [Emit (Error (KeyError ''id''))]"
      using fetch_data_products_raise[where server = server'] by blast
  qed
  have c4: "drive Clusters_url cluster_step (fetch_stream (server Clusters_url) 3) [] = (a1, Inr cs)
       \<and> drive Products_url product_step (fetch_stream (server Products_url) 3) [] =
           (a2, Inr rs)
       \<and> fetch_stream (server Associations_url) 3 = before @ Line y # rest''
       \<and> drive Associations_url association_step before [] = (a3, Inr assocs)
       \<and> length (split_pair CHR '':'' CHR '' '' y) \<noteq> 2 \<longrightarrow>
       fetch_data (Status 200) server = a1 @ a2 @ a3 @ [Emit (Error ValueError)]"
  proof
    assume h: "drive Clusters_url cluster_step (fetch_stream (server Clusters_url) 3) [] = (a1, Inr cs)
       \<and> drive Products_url product_step (fetch_stream (server Products_url) 3) [] =
           (a2, Inr rs)
       \<and> fetch_stream (server Associations_url) 3 = before @ Line y # rest''
       \<and> drive Associations_url association_step before [] = (a3, Inr assocs)
       \<and> length (split_pair CHR '':'' CHR '' '' y) \<noteq> 2"
    then have bad: "association_step y assocs = Inl ValueError"
      by (simp add: association_step_bad)
    from h have "drive Associations_url association_step before [] = (a3, Inr assocs)" by simp
    from drive_stops[OF this bad]
    have "drive Associations_url association_step
          (fetch_stream (server Associations_url) 3) [] = (a3, Inl ValueError)"
      using h by simp
    with h show "fetch_data (Status 200) server = a1 @ a2 @ a3 @ [Emit (Error ValueError)]"
      using fetch_data_associations_raise[where server = server] by blast
  qed
  from c1 c2 c3 c4 show ?thesis by blast
qed

theorem malformed_lines_witness:
  "(map fst (parse_product ''Tent|77'') = [''name'', ''id'']
      \<and> map snd (parse_product ''Tent|77'') = [''Tent'', ''77'']
      \<and> drive Products_url product_step [Line ''Tent|77'', Line ''Boat|78|5''] [] =
          ([Emit (Product [(''name'', ''Tent''), (''id'', ''77'')]),
            Emit (Product [(''name'', ''Boat''), (''id'', ''78''), (''price'', ''5'')])],
           Inr [[(''name'', ''Tent''), (''id'', ''77'')],
                [(''name'', ''Boat''), (''id'', ''78''), (''price'', ''5'')]]))
   \<and> get_review_stars (\<lambda>s. Not_a_float) (Some ''four'') = Inr ''Invalid review score''
   \<and> fetch_data (Status 200) broken_product_server =
        [Get Clusters_url, Emit (Cluster ''Golf''), Get Clusters_url, Get Clusters_url]
        @ [Get Products_url] @ [Emit (Error (KeyError ''id''))]
   \<and> fetch_data (Status 200) broken_association_server =
        [Get Clusters_url, Emit (Cluster ''Golf''), Get Clusters_url, Get Clusters_url]
        @ [Get Products_url, Emit (Product (parse_product ''Tent|77|10|4.5|p1|Camping|Quechua'')),
           Get Products_url, Get Products_url]
        @ [Get Associations_url] @ [Emit (Error ValueError)]"
  using malformed_lines
    [where x = "''Tent|77''" and ps = "[]" and seen = "[]" and rest = "[Line ''Boat|78|5'']"
       and float = "\<lambda>s. Not_a_float" and s = "''four''"
       and server' = broken_product_server
       and ?b1.0 = "[Get Clusters_url, Emit (Cluster ''Golf''), Get Clusters_url, Get Clusters_url]"
       and cs' = "[''Golf'']"
       and before' = "[Opened]" and x' = "''Tent''"
       and rest' = "[Line ''Boat|78'', Opened, Line ''Tent'', Line ''Boat|78'',
                     Opened, Line ''Tent'', Line ''Boat|78'']"
       and ?b2.0 = "[Get Products_url]" and qs = "[]"
       and server = broken_association_server
       and ?a1.0 = "[Get Clusters_url, Emit (Cluster ''Golf''), Get Clusters_url, Get Clusters_url]"
       and cs = "[''Golf'']"
       and ?a2.0 = "[Get Products_url,
                     Emit (Product (parse_product ''Tent|77|10|4.5|p1|Camping|Quechua'')),
                     Get Products_url, Get Products_url]"
       and rs = "[parse_product ''Tent|77|10|4.5|p1|Camping|Quechua'']"
       and before = "[Opened]" and y = "''Golf''"
       and rest'' = "[Line ''Golf: 77'', Opened, Line ''Golf'', Line ''Golf: 77'',
                      Opened, Line ''Golf'', Line ''Golf: 77'']"
       and ?a3.0 = "[Get Associations_url]" and assocs = "[]"]
  by (simp add: fetch_stream_def upt_3 broken_association_server_def broken_product_server_def
      strip_def isspace_def NL_def cluster_step_def product_step_def parse_product_def KEYS_def
      dict_item_def Let_def)

text \<open>
  C7 as stated also covers an association line without \<open>': '\<close>. On such a line the run
  ends with an \<open>error\<close> event: the well-formed line after it is never consumed.
\<close>

theorem malformed_association_counterexample:
  "fetch_data (Status 200) broken_association_server =
     [Get Clusters_url, Emit (Cluster ''Golf''), Get Clusters_url, Get Clusters_url,
      Get Products_url, Emit (Product (parse_product ''Tent|77|10|4.5|p1|Camping|Quechua'')),
      Get Products_url, Get Products_url,
      Get Associations_url, Emit (Error ValueError)]"
  by (rule fetch_data_broken)

end
